theory Spec2Isabelle
  imports Main "HOL-Library.AList" "HOL-Library.Multiset"
begin

section \<open>Data model of the fixturer package\<close>

text \<open>
  The development follows the second (current) implementation in \<^verbatim>\<open>fixturer.go\<close>:
  the type \<^verbatim>\<open>Fixturer\<close> with \<^verbatim>\<open>ImportFixtures\<close>, \<^verbatim>\<open>LoadDbSchema\<close>,
  \<^verbatim>\<open>RecreateDatabase\<close> and the package-level variables \<^verbatim>\<open>finishedTablseNames\<close>,
  \<^verbatim>\<open>finishedParsedDirs\<close> and \<^verbatim>\<open>insertMap\<close>.

  Everything outside the package (the file system, the YAML decoder, the SQL driver and
  the order in which Go visits the keys of a map) is an explicit parameter, collected in
  the record \<open>env\<close>. Every call that leaves the process is appended to a trace, and
  every line written to the log is appended to a log.
\<close>

subsection \<open>Values, records of a fixture file, insert builders\<close>

text \<open>A Go \<^verbatim>\<open>error\<close> value; \<^verbatim>\<open>nil\<close> is \<open>None\<close> of \<open>error option\<close>.\<close>

datatype error = Error string

text \<open>The scalars a decoded YAML document holds (\<^verbatim>\<open>interface{}\<close>).\<close>

datatype yval = YNull | YBool bool | YInt int | YStr string

text \<open>
  One decoded record, \<^verbatim>\<open>map[string]interface{}\<close>, as an association list read with
  \<open>map_of\<close>. The list order is the order of the fields in the file, which the Go map does
  not keep.
\<close>

type_synonym ymap = "(string \<times> yval) list"

text \<open>One slot of a value tuple: \<open>None\<close> is the marker "no value supplied".\<close>

type_synonym cell = "yval option"

text \<open>\<^verbatim>\<open>*squirrel.InsertBuilder\<close>: target table, column list, value tuples.\<close>

record insertBuilder =
  into :: string
  columns :: "string list"
  valueRows :: "cell list list"

text \<open>\<^verbatim>\<open>os.FileInfo\<close>, as far as the package reads it: \<^verbatim>\<open>Name()\<close> and \<^verbatim>\<open>IsDir()\<close>.\<close>

record fileInfo =
  fiName :: string
  fiIsDir :: bool

subsection \<open>Calls that leave the process\<close>

text \<open>
  The SQL statements the package sends: \<^verbatim>\<open>SET FOREIGN_KEY_CHECKS=0/1\<close>,
  \<^verbatim>\<open>TRUNCATE t\<close>, \<^verbatim>\<open>DROP DATABASE IF EXISTS d\<close>, \<^verbatim>\<open>CREATE DATABASE d\<close>, one
  statement of the schema file, and the statement \<^verbatim>\<open>ToSql()\<close> renders from a builder.
\<close>

datatype stmt =
    SetForeignKeyChecks bool
  | Truncate string
  | DropDatabaseIfExists string
  | CreateDatabase string
  | RawSql string
  | InsertOf insertBuilder

datatype event =
    ReadDir string
  | ReadFile string
  | SqlOpen string
  | SetMaxOpenConns int
  | SetMaxIdleConns int
  | Ping
  | Close
  | DbExec stmt
  | Begin
  | TxExec stmt
  | Commit
  | Rollback

datatype logline =
    LogLine string
  | LogError error
  | LogCantReadFixture string error

subsection \<open>The environment\<close>

text \<open>
  \<^item> \<open>readDir\<close>: \<^verbatim>\<open>ioutil.ReadDir\<close>;
  \<^item> \<open>readFile\<close>: \<^verbatim>\<open>ioutil.ReadFile\<close>;
  \<^item> \<open>unmarshal\<close>: \<^verbatim>\<open>yaml.Unmarshal(y, &data)\<close> on an empty \<^verbatim>\<open>data\<close>: what the
    decoder leaves in \<^verbatim>\<open>data\<close>, and the error it returns;
  \<^item> \<open>mapRange\<close>: the order in which a \<^verbatim>\<open>for k := range m\<close> visits the keys of a Go
    map, given the keys; Go leaves this order unspecified;
  \<^item> \<open>taskOrder\<close>: the order in which the goroutines of the parse phase run, given
    the list of files they are started for; the Go scheduler leaves this order open;
  \<^item> \<open>toSqlErr\<close>: the error \<^verbatim>\<open>ToSql()\<close> returns for a builder; the statement
    \<open>InsertOf q\<close> stands for the text it returns for \<open>q\<close>;
  \<^item> \<open>dbErr\<close>: the error a call to the SQL driver returns, given the calls made so far.
\<close>

record env =
  readDir :: "string \<Rightarrow> error + fileInfo list"
  readFile :: "string \<Rightarrow> error + string"
  unmarshal :: "string \<Rightarrow> ymap list \<times> error option"
  mapRange :: "string list \<Rightarrow> string list"
  taskOrder :: "fileInfo list \<Rightarrow> fileInfo list"
  toSqlErr :: "insertBuilder \<Rightarrow> error option"
  dbErr :: "event list \<Rightarrow> event \<Rightarrow> error option"

text \<open>Go visits every key of a map exactly once, in some order.\<close>

definition goMapOrder :: "env \<Rightarrow> bool" where
  "goMapOrder e = (\<forall>ks. mset (mapRange e ks) = mset ks)"

text \<open>Every goroutine that is started runs exactly once, in some order.\<close>

definition goTaskOrder :: "env \<Rightarrow> bool" where
  "goTaskOrder e = (\<forall>fs. mset (taskOrder e fs) = mset fs)"

subsection \<open>The Fixturer and the state of the process\<close>

text \<open>
  \<^verbatim>\<open>type Fixturer struct\<close>. The field \<open>db\<close> is \<open>None\<close> for a nil handle and holds the
  data source name of the open handle otherwise.
\<close>

record Fixturer =
  db :: "string option"
  dbConf :: string
  schema :: string
  fixturesPathYml :: string
  recreateDatabase :: bool
  dbName :: string
  dbParams :: string
  insertGoroutinesCnt :: int

text \<open>
  The package-level variables, the rows of the database tables, the working copy of an
  open transaction, the trace and the log.
\<close>

record sys =
  finishedTablseNames :: "string list"
  finishedParsedDirs :: "string set"
  insertMap :: "(string \<times> insertBuilder) list"
  tables :: "string \<Rightarrow> cell list list"
  txn :: "(string \<Rightarrow> cell list list) option"
  trace :: "event list"
  logged :: "logline list"

definition InsertChannelCapacity :: int where
  "InsertChannelCapacity = 1000"

definition InsertGoroutinesDefaultCnt :: int where
  "InsertGoroutinesDefaultCnt = 20"

text \<open>The state of a fresh process over a database with the given rows.\<close>

definition initSys :: "(string \<Rightarrow> cell list list) \<Rightarrow> sys" where
  "initSys tbl = \<lparr> finishedTablseNames = [], finishedParsedDirs = {}, insertMap = [],
     tables = tbl, txn = None, trace = [], logged = [] \<rparr>"

definition NewFixturer :: "bool \<Rightarrow> string \<Rightarrow> string \<Rightarrow> string \<Rightarrow> string \<Rightarrow> string \<Rightarrow> Fixturer" where
  "NewFixturer recreateFlag conf sch path name params =
     \<lparr> db = None, dbConf = conf, schema = sch, fixturesPathYml = path,
       recreateDatabase = recreateFlag, dbName = name, dbParams = params,
       insertGoroutinesCnt = InsertGoroutinesDefaultCnt \<rparr>"

subsection \<open>String functions of the Go library\<close>

definition hasSuffix :: "string \<Rightarrow> string \<Rightarrow> bool" where
  "hasSuffix s suf = (length suf \<le> length s \<and> drop (length s - length suf) s = suf)"

definition trimSuffix :: "string \<Rightarrow> string \<Rightarrow> string" where
  "trimSuffix s suf = (if hasSuffix s suf then take (length s - length suf) s else s)"

text \<open>\<^verbatim>\<open>strings.Split(s, ";")\<close>: the pieces between the separators, at least one.\<close>

fun splitOn :: "char \<Rightarrow> string \<Rightarrow> string list" where
  "splitOn c [] = [[]]"
| "splitOn c (x # xs) =
     (if x = c then [] # splitOn c xs
      else (case splitOn c xs of [] \<Rightarrow> [[x]] | w # ws \<Rightarrow> (x # w) # ws))"

text \<open>
  \<^verbatim>\<open>strings.TrimSpace\<close> removes the leading and the trailing Unicode white space of a
  UTF-8 string. \<open>spaceRunes\<close> lists the UTF-8 encodings of the white space runes: tab,
  line feed, vertical tab, form feed, carriage return, space, U+0085, U+00A0, U+1680,
  U+2000 to U+200A, U+2028, U+2029, U+202F, U+205F and U+3000.
\<close>

definition spaceRunes :: "string list" where
  "spaceRunes =
     [[CHR 0x09], [CHR 0x0A], [CHR 0x0B], [CHR 0x0C], [CHR 0x0D], [CHR 0x20],
      [CHR 0xC2, CHR 0x85], [CHR 0xC2, CHR 0xA0], [CHR 0xE1, CHR 0x9A, CHR 0x80],
      [CHR 0xE2, CHR 0x80, CHR 0x80], [CHR 0xE2, CHR 0x80, CHR 0x81],
      [CHR 0xE2, CHR 0x80, CHR 0x82], [CHR 0xE2, CHR 0x80, CHR 0x83],
      [CHR 0xE2, CHR 0x80, CHR 0x84], [CHR 0xE2, CHR 0x80, CHR 0x85],
      [CHR 0xE2, CHR 0x80, CHR 0x86], [CHR 0xE2, CHR 0x80, CHR 0x87],
      [CHR 0xE2, CHR 0x80, CHR 0x88], [CHR 0xE2, CHR 0x80, CHR 0x89],
      [CHR 0xE2, CHR 0x80, CHR 0x8A], [CHR 0xE2, CHR 0x80, CHR 0xA8],
      [CHR 0xE2, CHR 0x80, CHR 0xA9], [CHR 0xE2, CHR 0x80, CHR 0xAF],
      [CHR 0xE2, CHR 0x81, CHR 0x9F], [CHR 0xE3, CHR 0x80, CHR 0x80]]"

text \<open>
  The number of bytes of the white space rune a string begins with, or ends with;
  0 when it begins, or ends, with something else.
\<close>

definition leadingSpace :: "string \<Rightarrow> nat" where
  "leadingSpace s =
     (case filter (\<lambda>r. take (length r) s = r) spaceRunes of [] \<Rightarrow> 0 | r # rs \<Rightarrow> length r)"

definition trailingSpace :: "string \<Rightarrow> nat" where
  "trailingSpace s =
     (case filter (\<lambda>r. length r \<le> length s \<and> drop (length s - length r) s = r) spaceRunes of
        [] \<Rightarrow> 0 | r # rs \<Rightarrow> length r)"

function trimLeft :: "string \<Rightarrow> string" where
  "trimLeft s = (if leadingSpace s = 0 then s else trimLeft (drop (leadingSpace s) s))"
  by pat_completeness auto
termination
proof (relation "measure length")
  fix s :: string
  assume a: "leadingSpace s \<noteq> 0"
  have "s \<noteq> []"
  proof
    assume "s = []"
    then have "leadingSpace s = 0"
      by (simp add: leadingSpace_def spaceRunes_def)
    with a show False by simp
  qed
  with a show "(drop (leadingSpace s) s, s) \<in> measure length"
    by simp
qed simp

function trimRight :: "string \<Rightarrow> string" where
  "trimRight s = (if trailingSpace s = 0 then s else trimRight (take (length s - trailingSpace s) s))"
  by pat_completeness auto
termination
proof (relation "measure length")
  fix s :: string
  assume a: "trailingSpace s \<noteq> 0"
  have "s \<noteq> []"
  proof
    assume "s = []"
    then have "trailingSpace s = 0"
      by (simp add: trailingSpace_def spaceRunes_def)
    with a show False by simp
  qed
  with a show "(take (length s - trailingSpace s) s, s) \<in> measure length"
    by simp
qed simp

definition trimSpace :: "string \<Rightarrow> string" where
  "trimSpace s = trimRight (trimLeft s)"

section \<open>The SQL driver\<close>

text \<open>
  A call to the driver is appended to the trace; the environment decides whether it
  fails.
\<close>

definition driver :: "env \<Rightarrow> event \<Rightarrow> sys \<Rightarrow> error option \<times> sys" where
  "driver e ev s = (dbErr e (trace s) ev, s\<lparr>trace := trace s @ [ev]\<rparr>)"

definition logf :: "logline \<Rightarrow> sys \<Rightarrow> sys" where
  "logf l s = s\<lparr>logged := logged s @ [l]\<rparr>"

text \<open>
  What a statement that succeeds does to the rows: \<^verbatim>\<open>TRUNCATE\<close> empties its table,
  an insert appends its value tuples to its table, dropping the database drops every
  table. The other statements (session variables, data definition) leave the rows as
  they are.
\<close>

fun applyStmt :: "stmt \<Rightarrow> (string \<Rightarrow> cell list list) \<Rightarrow> (string \<Rightarrow> cell list list)" where
  "applyStmt (Truncate t) tb = tb(t := [])"
| "applyStmt (InsertOf q) tb = tb(into q := tb (into q) @ valueRows q)"
| "applyStmt (DropDatabaseIfExists d) tb = (\<lambda>t. [])"
| "applyStmt (SetForeignKeyChecks b) tb = tb"
| "applyStmt (CreateDatabase d) tb = tb"
| "applyStmt (RawSql q) tb = tb"

text \<open>\<^verbatim>\<open>db.Exec\<close> on the handle: the statement takes effect at once.\<close>

definition dbExec :: "env \<Rightarrow> stmt \<Rightarrow> sys \<Rightarrow> error option \<times> sys" where
  "dbExec e q s =
     (case driver e (DbExec q) s of
        (Some err, s1) \<Rightarrow> (Some err, s1)
      | (None, s1) \<Rightarrow> (None, s1\<lparr>tables := applyStmt q (tables s1)\<rparr>))"

text \<open>\<^verbatim>\<open>db.Begin\<close>: the transaction works on a copy of the rows.\<close>

definition dbBegin :: "env \<Rightarrow> sys \<Rightarrow> error option \<times> sys" where
  "dbBegin e s =
     (case driver e Begin s of
        (Some err, s1) \<Rightarrow> (Some err, s1)
      | (None, s1) \<Rightarrow> (None, s1\<lparr>txn := Some (tables s1)\<rparr>))"

text \<open>
  \<^verbatim>\<open>database/sql\<close>: once \<^verbatim>\<open>Commit\<close> or \<^verbatim>\<open>Rollback\<close> has been called on a
  transaction, every further operation on it returns \<^verbatim>\<open>ErrTxDone\<close> and nothing is sent
  to the driver.
\<close>

definition ErrTxDone :: error where
  "ErrTxDone = Error ''sql: transaction has already been committed or rolled back''"

definition txExec :: "env \<Rightarrow> stmt \<Rightarrow> sys \<Rightarrow> error option \<times> sys" where
  "txExec e q s =
     (case txn s of
        None \<Rightarrow> (Some ErrTxDone, s)
      | Some w \<Rightarrow>
         (case driver e (TxExec q) s of
            (Some err, s1) \<Rightarrow> (Some err, s1)
          | (None, s1) \<Rightarrow> (None, s1\<lparr>txn := Some (applyStmt q w)\<rparr>)))"

text \<open>
  \<^verbatim>\<open>tx.Commit\<close>: on success the working copy becomes the rows of the database; on
  failure it is dropped. Either way the transaction is done.
\<close>

definition txCommit :: "env \<Rightarrow> sys \<Rightarrow> error option \<times> sys" where
  "txCommit e s =
     (case txn s of
        None \<Rightarrow> (Some ErrTxDone, s)
      | Some w \<Rightarrow>
         (case driver e Commit s of
            (Some err, s1) \<Rightarrow> (Some err, s1\<lparr>txn := None\<rparr>)
          | (None, s1) \<Rightarrow> (None, s1\<lparr>tables := w, txn := None\<rparr>)))"

text \<open>\<^verbatim>\<open>tx.Rollback\<close>: the working copy is dropped.\<close>

definition txRollback :: "env \<Rightarrow> sys \<Rightarrow> error option \<times> sys" where
  "txRollback e s =
     (case txn s of
        None \<Rightarrow> (Some ErrTxDone, s)
      | Some w \<Rightarrow>
         (case driver e Rollback s of (r, s1) \<Rightarrow> (r, s1\<lparr>txn := None\<rparr>)))"

section \<open>The insert builder\<close>

text \<open>
  Modelled from the spec: the builder \<^verbatim>\<open>squirrel.InsertBuilder\<close> of the squirrel fork the
  package imports is not in the source tree. \<open>Insert\<close> names the table, \<open>Columns\<close> adds
  columns, and \<open>AddMap\<close> adds one value tuple for one record, aligned to the column list,
  with the marker "no value supplied" (\<open>None\<close>) for every column the record omits.
\<close>

definition Insert :: "string \<Rightarrow> insertBuilder" where
  "Insert t = \<lparr> into = t, columns = [], valueRows = [] \<rparr>"

definition Columns :: "insertBuilder \<Rightarrow> string list \<Rightarrow> insertBuilder" where
  "Columns q cs = q\<lparr>columns := columns q @ cs\<rparr>"

definition AddMap :: "insertBuilder \<Rightarrow> ymap \<Rightarrow> insertBuilder" where
  "AddMap q item = q\<lparr>valueRows := valueRows q @ [map (map_of item) (columns q)]\<rparr>"

section \<open>The operations of the package\<close>

subsection \<open>\<^verbatim>\<open>SetInsertGoroutinesCnt\<close>\<close>

text \<open>The panic is \<open>Inl\<close> of its message; the operation touches nothing but the receiver.\<close>

definition SetInsertGoroutinesCnt :: "Fixturer \<Rightarrow> int \<Rightarrow> string + Fixturer" where
  "SetInsertGoroutinesCnt this cnt =
     (if cnt < 1 then Inl ''Insert goroutines count must be > 1.''
      else Inr (this\<lparr>insertGoroutinesCnt := cnt\<rparr>))"

subsection \<open>Connecting and disconnecting\<close>

definition ensureDbConnected :: "env \<Rightarrow> Fixturer \<Rightarrow> sys \<Rightarrow> error option \<times> Fixturer \<times> sys" where
  "ensureDbConnected e this s =
     (if db this \<noteq> None then (None, this, s)
      else
        let dsn0 = dbConf this @ dbName this;
            dsn = (if dbParams this \<noteq> [] then dsn0 @ ''?'' @ dbParams this else dsn0)
        in case driver e (SqlOpen dsn) s of
             (Some err, s1) \<Rightarrow> (Some err, this, s1)
           | (None, s1) \<Rightarrow>
               let s2 = snd (driver e (SetMaxOpenConns (insertGoroutinesCnt this)) s1);
                   s3 = snd (driver e (SetMaxIdleConns (insertGoroutinesCnt this)) s2)
               in case driver e Ping s3 of
                    (Some err, s4) \<Rightarrow> (Some err, this, s4)
                  | (None, s4) \<Rightarrow> (None, this\<lparr>db := Some dsn\<rparr>, s4))"

definition ensureDbDisconnected :: "env \<Rightarrow> Fixturer \<Rightarrow> sys \<Rightarrow> Fixturer \<times> sys" where
  "ensureDbDisconnected e this s = (this\<lparr>db := None\<rparr>, snd (driver e Close s))"

subsection \<open>\<^verbatim>\<open>RecreateDatabase\<close>\<close>

definition RecreateDatabase :: "env \<Rightarrow> Fixturer \<Rightarrow> sys \<Rightarrow> error option \<times> sys" where
  "RecreateDatabase e this s =
     (case driver e (SqlOpen (dbConf this)) s of
        (Some err, s1) \<Rightarrow> (Some err, s1)
      | (None, s1) \<Rightarrow>
         (case dbExec e (DropDatabaseIfExists (dbName this))
                 (logf (LogLine (''Drop database '' @ dbName this)) s1) of
            (Some err, s2) \<Rightarrow> (Some err, s2)
          | (None, s2) \<Rightarrow>
             (case dbExec e (CreateDatabase (dbName this))
                     (logf (LogLine (''Create database '' @ dbName this)) s2) of
                (Some err, s3) \<Rightarrow> (Some err, s3)
              | (None, s3) \<Rightarrow> (None, snd (driver e Close s3)))))"

subsection \<open>\<^verbatim>\<open>getYmlFilesList\<close>\<close>

text \<open>The function lists \<^verbatim>\<open>this.fixturesPathYml\<close>; its parameter \<^verbatim>\<open>path\<close> is not read.\<close>

definition getYmlFilesList :: "env \<Rightarrow> Fixturer \<Rightarrow> string \<Rightarrow> sys \<Rightarrow> (error + fileInfo list) \<times> sys" where
  "getYmlFilesList e this path s =
     (let s1 = s\<lparr>trace := trace s @ [ReadDir (fixturesPathYml this)]\<rparr>
      in case readDir e (fixturesPathYml this) of
           Inl err \<Rightarrow> (Inl err, s1)
         | Inr files \<Rightarrow>
             (Inr (filter (\<lambda>file. \<not> (fiIsDir file \<or> \<not> hasSuffix (fiName file) ''.yml'')) files), s1))"

subsection \<open>\<^verbatim>\<open>pushInsertQueriesFromYmlToChannel\<close>\<close>

text \<open>
  A Go map with string keys is kept as the list of its keys, without repetition.
  \<open>setKey\<close> is \<^verbatim>\<open>allKeysMap[k] = struct{}{}\<close>; \<open>mapKeys\<close> are the keys of a decoded record.
\<close>

definition setKey :: "string list \<Rightarrow> string \<Rightarrow> string list" where
  "setKey m k = (if k \<in> set m then m else m @ [k])"

definition mapKeys :: "ymap \<Rightarrow> string list" where
  "mapKeys item = remdups (map fst item)"

text \<open>
  The first pair of loops of the task: every key of every record is put into
  \<^verbatim>\<open>allKeysMap\<close>.
\<close>

definition allKeysMap :: "env \<Rightarrow> ymap list \<Rightarrow> string list" where
  "allKeysMap e data =
     fold (\<lambda>item m. fold (\<lambda>k m'. setKey m' k) (mapRange e (mapKeys item)) m) data []"

text \<open>
  The rest of the task: \<^verbatim>\<open>allKeys\<close> is filled by a \<^verbatim>\<open>range\<close> over \<^verbatim>\<open>allKeysMap\<close>,
  the builder gets these columns, and every record is added with \<^verbatim>\<open>AddMap\<close>.
\<close>

definition buildInsert :: "env \<Rightarrow> string \<Rightarrow> ymap list \<Rightarrow> insertBuilder" where
  "buildInsert e tableName data =
     (let allKeys = mapRange e (allKeysMap e data);
          qb = Columns (Insert tableName) allKeys
      in fold (\<lambda>item q. AddMap q item) data qb)"

text \<open>
  What one task reads and decodes. The error of \<^verbatim>\<open>ReadFile\<close> is dropped by the
  source: the bytes are then empty.
\<close>

definition decodeFile :: "env \<Rightarrow> Fixturer \<Rightarrow> string \<Rightarrow> ymap list \<times> error option" where
  "decodeFile e this filename =
     unmarshal e (case readFile e (fixturesPathYml this @ ''/'' @ filename) of
                    Inl err \<Rightarrow> [] | Inr bytes \<Rightarrow> bytes)"

text \<open>The builder one task stores under the name of its file.\<close>

definition fileInsert :: "env \<Rightarrow> Fixturer \<Rightarrow> string \<Rightarrow> insertBuilder" where
  "fileInsert e this filename =
     buildInsert e (trimSuffix filename ''.yml'') (fst (decodeFile e this filename))"

text \<open>
  One task (the body of the goroutine) for one file. The error of the decoder is logged
  and the task goes on with what the decoder left in \<^verbatim>\<open>data\<close>.
  The task works on the local list \<^verbatim>\<open>tablesNames\<close> of its caller and on \<^verbatim>\<open>insertMap\<close>.
\<close>

definition parseTask :: "env \<Rightarrow> Fixturer \<Rightarrow> fileInfo \<Rightarrow> string list \<times> sys \<Rightarrow> string list \<times> sys" where
  "parseTask e this f acc =
     (case acc of (tablesNames, s) \<Rightarrow>
        let filename = fiName f
        in if \<not> hasSuffix filename ''.yml'' then (tablesNames, s)
           else
             let s1 = s\<lparr>trace := trace s @ [ReadFile (fixturesPathYml this @ ''/'' @ filename)]\<rparr>;
                 s2 = (case snd (decodeFile e this filename) of
                         None \<Rightarrow> s1
                       | Some err \<Rightarrow> logf (LogCantReadFixture filename err) s1);
                 tableName = trimSuffix filename ''.yml'';
                 qb = fileInsert e this filename
             in (tablesNames @ [tableName],
                 s2\<lparr>insertMap := AList.update filename qb (insertMap s2)\<rparr>))"

text \<open>
  One task is started for every file of the list, as a goroutine. Here the tasks run to
  completion one after the other, in the order \<open>taskOrder\<close> of the environment gives
  them, so that the order in which the table names are appended to \<^verbatim>\<open>tablesNames\<close>
  is open as it is in the program. When all are done (\<^verbatim>\<open>wg.Wait()\<close>), the local list
  replaces \<^verbatim>\<open>finishedTablseNames\<close>. The section on the tasks as goroutines below
  interleaves the steps of the tasks.
\<close>

definition pushInsertQueriesFromYmlToChannel :: "env \<Rightarrow> Fixturer \<Rightarrow> fileInfo list \<Rightarrow> sys \<Rightarrow> sys" where
  "pushInsertQueriesFromYmlToChannel e this files s =
     (case fold (parseTask e this) (taskOrder e files) ([], s) of
        (tablesNames, s1) \<Rightarrow> s1\<lparr>finishedTablseNames := tablesNames\<rparr>)"

subsection \<open>\<^verbatim>\<open>loadParsedData\<close>\<close>

text \<open>The loop over \<^verbatim>\<open>finishedTablseNames\<close>: the first failing \<^verbatim>\<open>TRUNCATE\<close> ends it.\<close>

fun truncateTables :: "env \<Rightarrow> string list \<Rightarrow> sys \<Rightarrow> error option \<times> sys" where
  "truncateTables e [] s = (None, s)"
| "truncateTables e (tableName # rest) s =
     (case dbExec e (Truncate tableName) s of
        (Some err, s1) \<Rightarrow> (Some err, logf (LogError err) s1)
      | (None, s1) \<Rightarrow> truncateTables e rest s1)"

text \<open>The loop over \<^verbatim>\<open>insertMap\<close>: errors are printed and the loop goes on.\<close>

fun execInserts :: "env \<Rightarrow> insertBuilder list \<Rightarrow> sys \<Rightarrow> sys" where
  "execInserts e [] s = s"
| "execInserts e (query # rest) s =
     (let s0 = (case toSqlErr e query of None \<Rightarrow> s | Some err \<Rightarrow> logf (LogError err) s)
      in case txExec e (InsertOf query) s0 of
           (Some err, s1) \<Rightarrow> execInserts e rest (logf (LogError err) s1)
         | (None, s1) \<Rightarrow> execInserts e rest s1)"

text \<open>The values of a Go map in the order a \<^verbatim>\<open>range\<close> visits them.\<close>

definition rangeValues :: "env \<Rightarrow> (string \<times> 'v) list \<Rightarrow> 'v list" where
  "rangeValues e m = List.map_filter (map_of m) (mapRange e (map fst m))"

text \<open>
  The two deferred calls run when the function returns, the later one first:
  \<^verbatim>\<open>tx.Rollback()\<close> (once the transaction has begun), then
  \<^verbatim>\<open>this.db.Exec("SET FOREIGN_KEY_CHECKS=1")\<close> (once the checks have been switched off).
\<close>

definition loadParsedData :: "env \<Rightarrow> sys \<Rightarrow> error option \<times> sys" where
  "loadParsedData e s =
     (case dbExec e (SetForeignKeyChecks False) s of
        (Some err, s1) \<Rightarrow> (Some err, s1)
      | (None, s1) \<Rightarrow>
         (case (case truncateTables e (finishedTablseNames s1) s1 of
                  (Some err, s2) \<Rightarrow> (Some err, s2)
                | (None, s2) \<Rightarrow>
                   (case dbBegin e s2 of
                      (Some err, s3) \<Rightarrow> (Some err, s3)
                    | (None, s3) \<Rightarrow>
                       (case (case txCommit e (execInserts e (rangeValues e (insertMap s3)) s3) of
                                (Some err, s4) \<Rightarrow> (Some err, logf (LogError err) s4)
                              | (None, s4) \<Rightarrow> (None, s4)) of
                          (r, s5) \<Rightarrow> (r, snd (txRollback e s5))))) of
            (r, s6) \<Rightarrow> (r, snd (dbExec e (SetForeignKeyChecks True) s6))))"

subsection \<open>\<^verbatim>\<open>importYmlFixtures\<close> and \<^verbatim>\<open>ImportFixtures\<close>\<close>

text \<open>
  For a directory in \<^verbatim>\<open>finishedParsedDirs\<close> the result of \<^verbatim>\<open>loadParsedData\<close> is
  dropped and \<^verbatim>\<open>nil\<close> is returned.
\<close>

definition importYmlFixtures :: "env \<Rightarrow> Fixturer \<Rightarrow> fileInfo list \<Rightarrow> sys \<Rightarrow> error option \<times> sys" where
  "importYmlFixtures e this files s =
     (let s0 = logf (LogLine ''Import YML fixtures'') s
      in if fixturesPathYml this \<in> finishedParsedDirs s0
         then (None, snd (loadParsedData e s0))
         else
           let s1 = pushInsertQueriesFromYmlToChannel e this files s0;
               s2 = s1\<lparr>finishedParsedDirs := insert (fixturesPathYml this) (finishedParsedDirs s1)\<rparr>
           in loadParsedData e s2)"

definition ImportFixtures :: "env \<Rightarrow> Fixturer \<Rightarrow> sys \<Rightarrow> error option \<times> Fixturer \<times> sys" where
  "ImportFixtures e this s =
     (case getYmlFilesList e this (fixturesPathYml this) s of
        (Inl err, s1) \<Rightarrow> (Some err, this, s1)
      | (Inr files, s1) \<Rightarrow>
         (case ensureDbConnected e this s1 of
            (Some err, this1, s2) \<Rightarrow> (Some err, this1, s2)
          | (None, this1, s2) \<Rightarrow>
             (case importYmlFixtures e this1 files s2 of
                (r, s3) \<Rightarrow>
                  (case ensureDbDisconnected e this1 s3 of
                     (this2, s4) \<Rightarrow> (r, this2, s4)))))"

subsection \<open>\<^verbatim>\<open>LoadDbSchema\<close>\<close>

text \<open>The loop over the pieces of the schema file: the first failing statement ends it.\<close>

fun execQueries :: "env \<Rightarrow> string list \<Rightarrow> sys \<Rightarrow> error option \<times> sys" where
  "execQueries e [] s = (None, s)"
| "execQueries e (q # rest) s =
     (let query = trimSpace q
      in if length query = 0 then execQueries e rest s
         else (case txExec e (RawSql query) s of
                 (Some err, s1) \<Rightarrow> (Some err, s1)
               | (None, s1) \<Rightarrow> execQueries e rest s1))"

text \<open>
  The deferred calls run the later one first: \<^verbatim>\<open>tx.Exec("SET FOREIGN_KEY_CHECKS=1")\<close>
  (once the checks have been switched off), then \<^verbatim>\<open>tx.Rollback()\<close> (once the
  transaction has begun). The handle stays connected.
\<close>

definition LoadDbSchema :: "env \<Rightarrow> Fixturer \<Rightarrow> sys \<Rightarrow> error option \<times> Fixturer \<times> sys" where
  "LoadDbSchema e this s =
     (case ensureDbConnected e this (logf (LogLine ''Load database schema'') s) of
        (Some err, this1, s1) \<Rightarrow> (Some err, this1, s1)
      | (None, this1, s1) \<Rightarrow>
         (case dbBegin e s1 of
            (Some err, s2) \<Rightarrow> (Some err, this1, s2)
          | (None, s2) \<Rightarrow>
             (case (case txExec e (SetForeignKeyChecks False) s2 of
                      (Some err, s3) \<Rightarrow> (Some err, s3)
                    | (None, s3) \<Rightarrow>
                       (case (let s4 = s3\<lparr>trace := trace s3 @ [ReadFile (schema this1)]\<rparr>
                              in case readFile e (schema this1) of
                                   Inr file \<Rightarrow>
                                     (case execQueries e (splitOn CHR '';'' file) s4 of
                                        (Some err, s5) \<Rightarrow> (Some err, s5)
                                      | (None, s5) \<Rightarrow> txCommit e s5)
                                 | Inl err \<Rightarrow> (Some err, s4)) of
                          (r, s6) \<Rightarrow> (r, snd (txExec e (SetForeignKeyChecks True) s6)))) of
                (r, s7) \<Rightarrow> (r, this1, snd (txRollback e s7)))))"

subsection \<open>\<^verbatim>\<open>RecreateDatabaseWithSchemaAndImportFixtures\<close>\<close>

definition RecreateDatabaseWithSchemaAndImportFixtures ::
    "env \<Rightarrow> Fixturer \<Rightarrow> sys \<Rightarrow> error option \<times> Fixturer \<times> sys" where
  "RecreateDatabaseWithSchemaAndImportFixtures e this s =
     (if recreateDatabase this = True then
        (case RecreateDatabase e this s of
           (Some err, s1) \<Rightarrow> (Some err, this, s1)
         | (None, s1) \<Rightarrow>
            (case LoadDbSchema e this s1 of
               (Some err, this2, s2) \<Rightarrow> (Some err, this2, s2)
             | (None, this2, s2) \<Rightarrow> ImportFixtures e this2 s2))
      else ImportFixtures e this s)"

section \<open>The tasks of the parse phase as goroutines\<close>

text \<open>
  \<^verbatim>\<open>pushInsertQueriesFromYmlToChannel\<close> with its goroutines interleaved. A task is at one
  of five points: at its start; after the suffix test, \<^verbatim>\<open>ReadFile\<close>, \<^verbatim>\<open>Unmarshal\<close> and
  the log line; after the append to \<^verbatim>\<open>tablesNames\<close> (under the mutex); after
  \<^verbatim>\<open>insertMap[filename] = qb\<close> (under the mutex), or after the suffix test has failed,
  with only the deferred \<^verbatim>\<open>wg.Done()\<close> left to run; and finished.
\<close>

datatype pc = AtStart | Decoded | Named | Returning | Finished

text \<open>
  The state of the function while its tasks run: the state of the process, the local
  list \<^verbatim>\<open>tablesNames\<close>, the counter of the \<^verbatim>\<open>sync.WaitGroup\<close>, the point every task is
  at, and whether the function itself is still before the return of \<^verbatim>\<open>wg.Wait()\<close>.
\<close>

record par =
  shared :: sys
  tablesNames :: "string list"
  wg :: int
  tasks :: "pc list"
  waiting :: bool

text \<open>\<^verbatim>\<open>wg.Add(len(files))\<close>, the empty list, and one goroutine started for every file.\<close>

definition launch :: "fileInfo list \<Rightarrow> sys \<Rightarrow> par" where
  "launch files s = \<lparr> shared = s, tablesNames = [], wg = int (length files),
     tasks = replicate (length files) AtStart, waiting = True \<rparr>"

text \<open>One step of the task \<open>i\<close>, started for the file \<open>f\<close>.\<close>

definition taskStep :: "env \<Rightarrow> Fixturer \<Rightarrow> fileInfo \<Rightarrow> nat \<Rightarrow> par \<Rightarrow> par" where
  "taskStep e this f i p =
     (case tasks p ! i of
        AtStart \<Rightarrow>
          if \<not> hasSuffix (fiName f) ''.yml'' then p\<lparr>tasks := (tasks p)[i := Returning]\<rparr>
          else
            let s = shared p;
                s1 = s\<lparr>trace := trace s @ [ReadFile (fixturesPathYml this @ ''/'' @ fiName f)]\<rparr>;
                s2 = (case snd (decodeFile e this (fiName f)) of
                        None \<Rightarrow> s1
                      | Some err \<Rightarrow> logf (LogCantReadFixture (fiName f) err) s1)
            in p\<lparr>shared := s2, tasks := (tasks p)[i := Decoded]\<rparr>
      | Decoded \<Rightarrow>
          p\<lparr>tablesNames := tablesNames p @ [trimSuffix (fiName f) ''.yml''],
            tasks := (tasks p)[i := Named]\<rparr>
      | Named \<Rightarrow>
          p\<lparr>shared := (shared p)\<lparr>insertMap :=
                 AList.update (fiName f) (fileInsert e this (fiName f)) (insertMap (shared p))\<rparr>,
            tasks := (tasks p)[i := Returning]\<rparr>
      | Returning \<Rightarrow> p\<lparr>wg := wg p - 1, tasks := (tasks p)[i := Finished]\<rparr>
      | Finished \<Rightarrow> p)"

text \<open>
  \<^verbatim>\<open>wg.Wait()\<close> returns once the counter is zero; the function then assigns
  \<^verbatim>\<open>finishedTablseNames = tablesNames\<close> and returns. Before that, the step changes nothing.
\<close>

definition waitStep :: "par \<Rightarrow> par" where
  "waitStep p =
     (if waiting p \<and> wg p = 0
      then p\<lparr>shared := (shared p)\<lparr>finishedTablseNames := tablesNames p\<rparr>, waiting := False\<rparr>
      else p)"

text \<open>
  The scheduler picks who moves next: \<open>None\<close> is the function itself, \<open>Some i\<close> the task
  of the \<open>i\<close>-th file. A run follows a schedule from the launch on.
\<close>

definition step :: "env \<Rightarrow> Fixturer \<Rightarrow> fileInfo list \<Rightarrow> nat option \<Rightarrow> par \<Rightarrow> par" where
  "step e this files who p =
     (case who of
        None \<Rightarrow> waitStep p
      | Some i \<Rightarrow> if i < length files then taskStep e this (files ! i) i p else p)"

definition run :: "env \<Rightarrow> Fixturer \<Rightarrow> fileInfo list \<Rightarrow> nat option list \<Rightarrow> sys \<Rightarrow> par" where
  "run e this files sched s = fold (step e this files) sched (launch files s)"



section \<open>Reading the trace\<close>

text \<open>
  The paths read with \<^verbatim>\<open>ReadFile\<close>, the directories listed, the tables truncated and
  the builders executed inside a transaction, in the order of the trace.
\<close>

definition fileReads :: "event list \<Rightarrow> string list" where
  "fileReads tr = [p. ReadFile p \<leftarrow> tr]"

definition dirListings :: "event list \<Rightarrow> string list" where
  "dirListings tr = [d. ReadDir d \<leftarrow> tr]"

definition truncations :: "event list \<Rightarrow> string list" where
  "truncations tr = [t. DbExec (Truncate t) \<leftarrow> tr]"

definition insertsExecuted :: "event list \<Rightarrow> insertBuilder list" where
  "insertsExecuted tr = [q. TxExec (InsertOf q) \<leftarrow> tr]"

text \<open>A driver call that succeeds, or fails with a given error, whenever it is made.\<close>

definition neverFails :: "env \<Rightarrow> event \<Rightarrow> bool" where
  "neverFails e ev = (\<forall>tr. dbErr e tr ev = None)"

definition failsWith :: "env \<Rightarrow> event \<Rightarrow> error \<Rightarrow> bool" where
  "failsWith e ev err = (\<forall>tr. dbErr e tr ev = Some err)"

definition noDbErrors :: "env \<Rightarrow> bool" where
  "noDbErrors e = (\<forall>tr ev. dbErr e tr ev = None)"

text \<open>The fixture files of a listing, as \<^verbatim>\<open>getYmlFilesList\<close> keeps them.\<close>

definition ymlFiles :: "fileInfo list \<Rightarrow> fileInfo list" where
  "ymlFiles files = filter (\<lambda>file. \<not> (fiIsDir file \<or> \<not> hasSuffix (fiName file) ''.yml'')) files"

section \<open>A concrete process\<close>

text \<open>
  The scenario of the specification, a directory \<^verbatim>\<open>fx\<close> with \<^verbatim>\<open>users.yml\<close> holding
  the records \<^verbatim>\<open>{id:1,name:"a"}\<close> and \<^verbatim>\<open>{id:2,name:"a",note:"x"}\<close>, a file that
  does not decode and a file that is no fixture; two more directories; a schema file; a
  driver on which every call succeeds; a map order that happens to be the order of
  insertion, and tasks that happen to run in the order of the listing.
\<close>

definition usersRecords :: "ymap list" where
  "usersRecords = [[(''id'', YInt 1), (''name'', YStr ''a'')],
                   [(''id'', YInt 2), (''name'', YStr ''a''), (''note'', YStr ''x'')]]"

definition demoEnv :: env where
  "demoEnv = \<lparr>
     readDir = (\<lambda>d. if d = ''fx'' then Inr [\<lparr>fiName = ''users.yml'', fiIsDir = False\<rparr>,
                                           \<lparr>fiName = ''broken.yml'', fiIsDir = False\<rparr>,
                                           \<lparr>fiName = ''README'', fiIsDir = False\<rparr>]
                else if d = ''fx2'' then Inr [\<lparr>fiName = ''orders.yml'', fiIsDir = False\<rparr>]
                else if d = ''fx3'' then Inr [\<lparr>fiName = ''users.yml'', fiIsDir = False\<rparr>]
                else Inl (Error ''no such directory'')),
     readFile = (\<lambda>p. if p = ''fx/users.yml'' then Inr ''U''
                 else if p = ''fx/broken.yml'' then Inr ''{''
                 else if p = ''fx2/orders.yml'' then Inr ''O''
                 else if p = ''fx3/users.yml'' then Inr ''V''
                 else if p = ''schema.sql''
                   then Inr ''CREATE TABLE users (id INT); CREATE TABLE orders (id INT);''
                 else Inl (Error ''no such file'')),
     unmarshal = (\<lambda>y. if y = ''U'' then (usersRecords, None)
                  else if y = ''O'' then ([[(''id'', YInt 10)]], None)
                  else if y = ''V'' then ([[(''id'', YInt 3)]], None)
                  else if y = ''{''
                    then ([], Some (Error ''yaml: did not find expected node content''))
                  else ([], None)),
     mapRange = (\<lambda>ks. ks),
     taskOrder = (\<lambda>fs. fs),
     toSqlErr = (\<lambda>q. if valueRows q = []
                   then Some (Error ''insert statements must have at least one set of values'')
                   else None),
     dbErr = (\<lambda>tr ev. None) \<rparr>"

text \<open>The same environment with one driver call that fails whenever it is made.\<close>

definition demoEnvFailing :: "event \<Rightarrow> env" where
  "demoEnvFailing bad =
     demoEnv\<lparr>dbErr := (\<lambda>tr ev. if ev = bad then Some (Error ''driver: bad connection'') else None)\<rparr>"

definition demoFixturer :: "bool \<Rightarrow> string \<Rightarrow> Fixturer" where
  "demoFixturer recreateFlag dir =
     NewFixturer recreateFlag ''root@tcp(db)/'' ''schema.sql'' dir ''test'' []"

text \<open>A database whose table \<^verbatim>\<open>users\<close> holds one row before anything is imported.\<close>

definition demoTables :: "string \<Rightarrow> cell list list" where
  "demoTables = (\<lambda>t. if t = ''users'' then [[Some (YInt 7)]] else [])"

text \<open>
  The state after the parse phase of \<^verbatim>\<open>fx/users.yml\<close> alone, and the state a first
  \<^verbatim>\<open>ImportFixtures\<close> of the directory \<^verbatim>\<open>fx\<close> leaves.
\<close>

definition demoParsed :: sys where
  "demoParsed = pushInsertQueriesFromYmlToChannel demoEnv (demoFixturer True ''fx'')
     [\<lparr>fiName = ''users.yml'', fiIsDir = False\<rparr>] (initSys demoTables)"

definition demoFirst :: sys where
  "demoFirst = snd (snd (ImportFixtures demoEnv (demoFixturer True ''fx'') (initSys demoTables)))"

text \<open>
  The same environment with a decoder that returns its error for \<^verbatim>\<open>broken.yml\<close> after
  it has decoded one record of the file.
\<close>

definition demoEnvPartial :: env where
  "demoEnvPartial =
     demoEnv\<lparr>unmarshal := (\<lambda>y. if y = ''{''
                               then ([[(''id'', YInt 99)]], Some (Error ''yaml: line 2: did not find expected key''))
                             else unmarshal demoEnv y)\<rparr>"

text \<open>
  The same environment with the tasks of the parse phase completing in the reverse of
  the order of the listing.
\<close>

definition demoEnvReversed :: env where
  "demoEnvReversed = demoEnv\<lparr>taskOrder := rev\<rparr>"




section \<open>Notions used in the statements\<close>

text \<open>
  The column order of the specification: the union of all field names across the
  records of a file, each name at its first occurrence in the file.
\<close>

definition specFirstOccurrenceColumns :: "ymap list \<Rightarrow> string list" where
  "specFirstOccurrenceColumns data =
     fold (\<lambda>k cols. if k \<in> set cols then cols else cols @ [k]) (concat (map (map fst) data)) []"

text \<open>
  The state in which \<^verbatim>\<open>loadParsedData\<close> starts inside \<^verbatim>\<open>ImportFixtures\<close>, once the
  directory has been listed and the handle is connected: the state as it was for a
  directory of \<^verbatim>\<open>finishedParsedDirs\<close>, the state after the parse phase otherwise.
\<close>

definition beforeLoad :: "env \<Rightarrow> Fixturer \<Rightarrow> sys \<Rightarrow> sys" where
  "beforeLoad e this s =
     (let s1 = s\<lparr>trace := trace s @ [ReadDir (fixturesPathYml this)]\<rparr>;
          c = ensureDbConnected e this s1;
          s3 = logf (LogLine ''Import YML fixtures'') (snd (snd c))
      in if fixturesPathYml this \<in> finishedParsedDirs s then s3
         else (pushInsertQueriesFromYmlToChannel e (fst (snd c))
                 (ymlFiles (case readDir e (fixturesPathYml this) of Inr fs \<Rightarrow> fs | Inl err \<Rightarrow> [])) s3)
              \<lparr>finishedParsedDirs := insert (fixturesPathYml this) (finishedParsedDirs s)\<rparr>)"


text \<open>
  A file whose task goes past the suffix test, and the fixture files of a list in the
  order in which their tasks run.
\<close>

definition isYml :: "fileInfo \<Rightarrow> bool" where
  "isYml f = hasSuffix (fiName f) ''.yml''"

definition parsedFiles :: "env \<Rightarrow> fileInfo list \<Rightarrow> fileInfo list" where
  "parsedFiles e files = filter isYml (taskOrder e files)"

definition tableOf :: "fileInfo \<Rightarrow> string" where
  "tableOf f = trimSuffix (fiName f) ''.yml''"




section \<open>Properties\<close>

subsection \<open>Reading the trace\<close>

lemma fileReads_append [simp]: "fileReads (xs @ ys) = fileReads xs @ fileReads ys"
  by (simp add: fileReads_def)

lemma dirListings_append [simp]: "dirListings (xs @ ys) = dirListings xs @ dirListings ys"
  by (simp add: dirListings_def)

lemma truncations_append [simp]: "truncations (xs @ ys) = truncations xs @ truncations ys"
  by (simp add: truncations_def)

lemma insertsExecuted_append [simp]:
  "insertsExecuted (xs @ ys) = insertsExecuted xs @ insertsExecuted ys"
  by (simp add: insertsExecuted_def)

lemma fileReads_Nil [simp]: "fileReads [] = []"
  by (simp add: fileReads_def)

lemma dirListings_Nil [simp]: "dirListings [] = []"
  by (simp add: dirListings_def)

lemma truncations_Nil [simp]: "truncations [] = []"
  by (simp add: truncations_def)

lemma insertsExecuted_Nil [simp]: "insertsExecuted [] = []"
  by (simp add: insertsExecuted_def)

lemma fileReads_Cons [simp]:
  "fileReads (ev # tr) = (case ev of ReadFile p \<Rightarrow> [p] | _ \<Rightarrow> []) @ fileReads tr"
  by (simp add: fileReads_def split: event.splits)

lemma dirListings_Cons [simp]:
  "dirListings (ev # tr) = (case ev of ReadDir d \<Rightarrow> [d] | _ \<Rightarrow> []) @ dirListings tr"
  by (simp add: dirListings_def split: event.splits)

lemma truncations_Cons [simp]:
  "truncations (ev # tr) = (case ev of DbExec (Truncate t) \<Rightarrow> [t] | _ \<Rightarrow> []) @ truncations tr"
  by (simp add: truncations_def split: event.splits stmt.splits)

lemma insertsExecuted_Cons [simp]:
  "insertsExecuted (ev # tr) =
     (case ev of TxExec (InsertOf q) \<Rightarrow> [q] | _ \<Rightarrow> []) @ insertsExecuted tr"
  by (simp add: insertsExecuted_def split: event.splits stmt.splits)

lemmas prims = driver_def dbExec_def dbBegin_def txExec_def txCommit_def txRollback_def logf_def

subsection \<open>The parse phase, file by file\<close>

lemma parseTask_step:
  "parseTask e this f (tn, s) =
     (if hasSuffix (fiName f) ''.yml'' then
        (tn @ [trimSuffix (fiName f) ''.yml''],
         s\<lparr>trace := trace s @ [ReadFile (fixturesPathYml this @ ''/'' @ fiName f)],
           logged := logged s @ (case snd (decodeFile e this (fiName f)) of
                                   None \<Rightarrow> []
                                 | Some err \<Rightarrow> [LogCantReadFixture (fiName f) err]),
           insertMap := AList.update (fiName f) (fileInsert e this (fiName f)) (insertMap s)\<rparr>)
      else (tn, s))"
  by (cases "snd (decodeFile e this (fiName f))")
     (simp_all add: parseTask_def Let_def logf_def)

lemma fold_parseTask:
  "fold (parseTask e this) files (tn, s) =
     (tn @ map (\<lambda>f. trimSuffix (fiName f) ''.yml'')
             (filter (\<lambda>f. hasSuffix (fiName f) ''.yml'') files),
      s\<lparr>trace := trace s @ map (\<lambda>f. ReadFile (fixturesPathYml this @ ''/'' @ fiName f))
                    (filter (\<lambda>f. hasSuffix (fiName f) ''.yml'') files),
        logged := logged s @ concat (map (\<lambda>f. case snd (decodeFile e this (fiName f)) of
                                               None \<Rightarrow> []
                                             | Some err \<Rightarrow> [LogCantReadFixture (fiName f) err])
                    (filter (\<lambda>f. hasSuffix (fiName f) ''.yml'') files)),
        insertMap := fold (\<lambda>f m. AList.update (fiName f) (fileInsert e this (fiName f)) m)
                    (filter (\<lambda>f. hasSuffix (fiName f) ''.yml'') files) (insertMap s)\<rparr>)"
proof (induction files arbitrary: tn s)
  case Nil
  then show ?case by simp
next
  case (Cons f files)
  show ?case
    by (simp add: Cons.IH parseTask_step)
qed

lemma parsedFiles_eq:
  "parsedFiles e files = filter (\<lambda>f. hasSuffix (fiName f) ''.yml'') (taskOrder e files)"
  by (simp add: parsedFiles_def isYml_def [abs_def])

lemma tableOf_eq: "tableOf = (\<lambda>f. trimSuffix (fiName f) ''.yml'')"
  by (simp add: fun_eq_iff tableOf_def)

lemma isYml_eq: "isYml = (\<lambda>f. hasSuffix (fiName f) ''.yml'')"
  by (simp add: fun_eq_iff isYml_def)

lemma parsedFiles_mset:
  "goTaskOrder e \<Longrightarrow> mset (parsedFiles e files) = mset (filter isYml files)"
  by (simp add: parsedFiles_def goTaskOrder_def)

lemma filter_isYml_ymlFiles [simp]: "filter isYml (ymlFiles fs) = ymlFiles fs"
  by (induction fs) (auto simp: ymlFiles_def isYml_def)

lemma parsedFiles_ymlFiles:
  assumes "goTaskOrder e"
  shows "mset (parsedFiles e (ymlFiles fs)) = mset (ymlFiles fs)"
    and "set (parsedFiles e (ymlFiles fs)) = set (ymlFiles fs)"
proof -
  show m: "mset (parsedFiles e (ymlFiles fs)) = mset (ymlFiles fs)"
    using assms by (simp add: parsedFiles_mset)
  show "set (parsedFiles e (ymlFiles fs)) = set (ymlFiles fs)"
    using m by (rule mset_eq_setD)
qed

lemma fileInsert_cnt [simp]:
  "fileInsert e (this\<lparr>insertGoroutinesCnt := n\<rparr>) filename = fileInsert e this filename"
  by (simp add: fileInsert_def decodeFile_def)

lemma decodeFile_cnt [simp]:
  "decodeFile e (this\<lparr>insertGoroutinesCnt := n\<rparr>) filename = decodeFile e this filename"
  by (simp add: decodeFile_def)

lemma fileReads_map_ReadFile [simp]: "fileReads (map (\<lambda>f. ReadFile (g f)) fs) = map g fs"
  by (induction fs) simp_all

subsection \<open>Setting the number of insert goroutines\<close>

text \<open>
  C7. \<^verbatim>\<open>SetInsertGoroutinesCnt\<close> panics for every count below 1; it is a function of the
  receiver and the count alone, so nothing is read or sent before the panic. For every
  count from 1 on it returns the receiver with the count stored. The count is then what
  \<^verbatim>\<open>ensureDbConnected\<close> passes to \<^verbatim>\<open>SetMaxOpenConns\<close> and \<^verbatim>\<open>SetMaxIdleConns\<close>, while the
  parse phase does the same with any count: one file read for every fixture file of the
  list.
\<close>

theorem SetInsertGoroutinesCnt_bounds_pool_only:
  "(n < 1 \<longrightarrow> SetInsertGoroutinesCnt this n = Inl ''Insert goroutines count must be > 1.'')
   \<and> (1 \<le> n \<longrightarrow> SetInsertGoroutinesCnt this n = Inr (this\<lparr>insertGoroutinesCnt := n\<rparr>))
   \<and> (db this = None \<and> dbParams this = [] \<and> neverFails e (SqlOpen (dbConf this @ dbName this)) \<longrightarrow>
        trace (snd (snd (ensureDbConnected e (this\<lparr>insertGoroutinesCnt := n\<rparr>) s))) =
          trace s @ [SqlOpen (dbConf this @ dbName this), SetMaxOpenConns n, SetMaxIdleConns n, Ping])
   \<and> pushInsertQueriesFromYmlToChannel e (this\<lparr>insertGoroutinesCnt := n\<rparr>) files s =
       pushInsertQueriesFromYmlToChannel e this files s
   \<and> fileReads (trace (pushInsertQueriesFromYmlToChannel e (this\<lparr>insertGoroutinesCnt := n\<rparr>) files s)) =
       fileReads (trace s) @
       map (\<lambda>f. fixturesPathYml this @ ''/'' @ fiName f)
         (filter (\<lambda>f. hasSuffix (fiName f) ''.yml'') (taskOrder e files))"
proof -
  have a: "n < 1 \<longrightarrow> SetInsertGoroutinesCnt this n = Inl ''Insert goroutines count must be > 1.''"
    by (simp add: SetInsertGoroutinesCnt_def)
  have b: "1 \<le> n \<longrightarrow> SetInsertGoroutinesCnt this n = Inr (this\<lparr>insertGoroutinesCnt := n\<rparr>)"
    by (simp add: SetInsertGoroutinesCnt_def)
  have c: "db this = None \<and> dbParams this = [] \<and> neverFails e (SqlOpen (dbConf this @ dbName this)) \<longrightarrow>
        trace (snd (snd (ensureDbConnected e (this\<lparr>insertGoroutinesCnt := n\<rparr>) s))) =
          trace s @ [SqlOpen (dbConf this @ dbName this), SetMaxOpenConns n, SetMaxIdleConns n, Ping]"
    by (simp add: ensureDbConnected_def driver_def neverFails_def Let_def split: option.splits)
  have d: "pushInsertQueriesFromYmlToChannel e (this\<lparr>insertGoroutinesCnt := n\<rparr>) files s =
       pushInsertQueriesFromYmlToChannel e this files s"
    by (simp add: pushInsertQueriesFromYmlToChannel_def fold_parseTask)
  have e: "fileReads (trace (pushInsertQueriesFromYmlToChannel e (this\<lparr>insertGoroutinesCnt := n\<rparr>) files s)) =
       fileReads (trace s) @
       map (\<lambda>f. fixturesPathYml this @ ''/'' @ fiName f)
         (filter (\<lambda>f. hasSuffix (fiName f) ''.yml'') (taskOrder e files))"
    by (simp add: pushInsertQueriesFromYmlToChannel_def fold_parseTask)
  from a b c d e show ?thesis by blast
qed

lemma demo_neverFails [simp]: "neverFails demoEnv ev"
  by (simp add: neverFails_def demoEnv_def)

theorem SetInsertGoroutinesCnt_bounds_pool_only_witness:
  "SetInsertGoroutinesCnt (demoFixturer True ''fx'') 0 = Inl ''Insert goroutines count must be > 1.''
   \<and> SetInsertGoroutinesCnt (demoFixturer True ''fx'') 5 =
       Inr ((demoFixturer True ''fx'')\<lparr>insertGoroutinesCnt := 5\<rparr>)
   \<and> trace (snd (snd (ensureDbConnected demoEnv ((demoFixturer True ''fx'')\<lparr>insertGoroutinesCnt := 5\<rparr>)
        (initSys demoTables)))) =
       [SqlOpen ''root@tcp(db)/test'', SetMaxOpenConns 5, SetMaxIdleConns 5, Ping]"
  using SetInsertGoroutinesCnt_bounds_pool_only
          [where n = 0 and this = "demoFixturer True ''fx''" and e = demoEnv and s = "initSys demoTables"]
        SetInsertGoroutinesCnt_bounds_pool_only
          [where n = 5 and this = "demoFixturer True ''fx''" and e = demoEnv and s = "initSys demoTables"]
  by (simp add: demoFixturer_def NewFixturer_def initSys_def)

subsection \<open>What the load phase and the other operations leave alone\<close>

lemma truncateTables_frame [simp]:
  "insertMap (snd (truncateTables e ts s)) = insertMap s"
  "finishedTablseNames (snd (truncateTables e ts s)) = finishedTablseNames s"
  "finishedParsedDirs (snd (truncateTables e ts s)) = finishedParsedDirs s"
  "txn (snd (truncateTables e ts s)) = txn s"
  "fileReads (trace (snd (truncateTables e ts s))) = fileReads (trace s)"
  "dirListings (trace (snd (truncateTables e ts s))) = dirListings (trace s)"
  "insertsExecuted (trace (snd (truncateTables e ts s))) = insertsExecuted (trace s)"
  by (induction ts arbitrary: s; simp add: prims split_def split: option.splits)+

lemma execInserts_frame [simp]:
  "insertMap (execInserts e qs s) = insertMap s"
  "finishedTablseNames (execInserts e qs s) = finishedTablseNames s"
  "finishedParsedDirs (execInserts e qs s) = finishedParsedDirs s"
  "tables (execInserts e qs s) = tables s"
  "fileReads (trace (execInserts e qs s)) = fileReads (trace s)"
  "dirListings (trace (execInserts e qs s)) = dirListings (trace s)"
  "truncations (trace (execInserts e qs s)) = truncations (trace s)"
  by (induction qs arbitrary: s; simp add: prims split_def Let_def split: option.splits)+

lemma execInserts_txn [simp]: "(txn (execInserts e qs s) = None) = (txn s = None)"
  by (induction qs arbitrary: s; simp add: prims split_def Let_def split: option.splits)

lemma execQueries_frame [simp]:
  "insertMap (snd (execQueries e qs s)) = insertMap s"
  "finishedTablseNames (snd (execQueries e qs s)) = finishedTablseNames s"
  "finishedParsedDirs (snd (execQueries e qs s)) = finishedParsedDirs s"
  "tables (snd (execQueries e qs s)) = tables s"
  "fileReads (trace (snd (execQueries e qs s))) = fileReads (trace s)"
  "dirListings (trace (snd (execQueries e qs s))) = dirListings (trace s)"
  "truncations (trace (snd (execQueries e qs s))) = truncations (trace s)"
  "insertsExecuted (trace (snd (execQueries e qs s))) = insertsExecuted (trace s)"
  by (induction qs arbitrary: s; simp add: prims split_def Let_def split: option.splits)+

lemma execQueries_txn [simp]: "(txn (snd (execQueries e qs s)) = None) = (txn s = None)"
  by (induction qs arbitrary: s; simp add: prims split_def Let_def split: option.splits)

lemma loadParsedData_frame [simp]:
  "insertMap (snd (loadParsedData e s)) = insertMap s"
  "finishedTablseNames (snd (loadParsedData e s)) = finishedTablseNames s"
  "finishedParsedDirs (snd (loadParsedData e s)) = finishedParsedDirs s"
  "fileReads (trace (snd (loadParsedData e s))) = fileReads (trace s)"
  "dirListings (trace (snd (loadParsedData e s))) = dirListings (trace s)"
  by (simp_all add: loadParsedData_def prims split_def split: option.splits)

lemma RecreateDatabase_frame [simp]:
  "insertMap (snd (RecreateDatabase e this s)) = insertMap s"
  "finishedTablseNames (snd (RecreateDatabase e this s)) = finishedTablseNames s"
  "finishedParsedDirs (snd (RecreateDatabase e this s)) = finishedParsedDirs s"
  "fileReads (trace (snd (RecreateDatabase e this s))) = fileReads (trace s)"
  "dirListings (trace (snd (RecreateDatabase e this s))) = dirListings (trace s)"
  "truncations (trace (snd (RecreateDatabase e this s))) = truncations (trace s)"
  "insertsExecuted (trace (snd (RecreateDatabase e this s))) = insertsExecuted (trace s)"
  by (simp_all add: RecreateDatabase_def prims split_def split: option.splits)

lemma ensureDbConnected_frame [simp]:
  "insertMap (snd (snd (ensureDbConnected e this s))) = insertMap s"
  "finishedTablseNames (snd (snd (ensureDbConnected e this s))) = finishedTablseNames s"
  "finishedParsedDirs (snd (snd (ensureDbConnected e this s))) = finishedParsedDirs s"
  "tables (snd (snd (ensureDbConnected e this s))) = tables s"
  "txn (snd (snd (ensureDbConnected e this s))) = txn s"
  "logged (snd (snd (ensureDbConnected e this s))) = logged s"
  "fileReads (trace (snd (snd (ensureDbConnected e this s)))) = fileReads (trace s)"
  "dirListings (trace (snd (snd (ensureDbConnected e this s)))) = dirListings (trace s)"
  "truncations (trace (snd (snd (ensureDbConnected e this s)))) = truncations (trace s)"
  "insertsExecuted (trace (snd (snd (ensureDbConnected e this s)))) = insertsExecuted (trace s)"
  by (simp_all add: ensureDbConnected_def prims split_def Let_def split: option.splits)

lemma LoadDbSchema_frame [simp]:
  "insertMap (snd (snd (LoadDbSchema e this s))) = insertMap s"
  "finishedTablseNames (snd (snd (LoadDbSchema e this s))) = finishedTablseNames s"
  "finishedParsedDirs (snd (snd (LoadDbSchema e this s))) = finishedParsedDirs s"
  "dirListings (trace (snd (snd (LoadDbSchema e this s)))) = dirListings (trace s)"
  "truncations (trace (snd (snd (LoadDbSchema e this s)))) = truncations (trace s)"
  "insertsExecuted (trace (snd (snd (LoadDbSchema e this s)))) = insertsExecuted (trace s)"
  by (simp_all add: LoadDbSchema_def prims split_def Let_def split: option.splits sum.splits)

subsection \<open>The composed operation\<close>

text \<open>
  C6. \<^verbatim>\<open>RecreateDatabaseWithSchemaAndImportFixtures\<close> with the flag off is
  \<^verbatim>\<open>ImportFixtures\<close> and nothing else. With the flag on it runs \<^verbatim>\<open>RecreateDatabase\<close>,
  then \<^verbatim>\<open>LoadDbSchema\<close>, then \<^verbatim>\<open>ImportFixtures\<close>, each on the state the step
  before left. When a step returns an error, the operation returns that error and the
  state exactly as the failing step left it: the later steps make no call (no schema
  file is read and no directory is listed after a failed recreate, no directory is
  listed after a failed schema load), and what the earlier steps did stays.
\<close>

theorem RecreateDatabaseWithSchemaAndImportFixtures_steps:
  "(\<not> recreateDatabase this \<longrightarrow>
      RecreateDatabaseWithSchemaAndImportFixtures e this s = ImportFixtures e this s)
   \<and> (recreateDatabase this \<longrightarrow>
       (\<forall>err. fst (RecreateDatabase e this s) = Some err \<longrightarrow>
          RecreateDatabaseWithSchemaAndImportFixtures e this s =
            (Some err, this, snd (RecreateDatabase e this s))
          \<and> fileReads (trace (snd (snd (RecreateDatabaseWithSchemaAndImportFixtures e this s)))) =
              fileReads (trace s)
          \<and> dirListings (trace (snd (snd (RecreateDatabaseWithSchemaAndImportFixtures e this s)))) =
              dirListings (trace s))
     \<and> (fst (RecreateDatabase e this s) = None \<longrightarrow>
          (\<forall>err. fst (LoadDbSchema e this (snd (RecreateDatabase e this s))) = Some err \<longrightarrow>
             RecreateDatabaseWithSchemaAndImportFixtures e this s =
               (Some err, snd (LoadDbSchema e this (snd (RecreateDatabase e this s))))
             \<and> dirListings (trace (snd (snd (RecreateDatabaseWithSchemaAndImportFixtures e this s)))) =
                 dirListings (trace s))
        \<and> (fst (LoadDbSchema e this (snd (RecreateDatabase e this s))) = None \<longrightarrow>
             RecreateDatabaseWithSchemaAndImportFixtures e this s =
               ImportFixtures e (fst (snd (LoadDbSchema e this (snd (RecreateDatabase e this s)))))
                 (snd (snd (LoadDbSchema e this (snd (RecreateDatabase e this s))))))))"
  by (auto simp: RecreateDatabaseWithSchemaAndImportFixtures_def split_def split: option.splits)


theorem RecreateDatabaseWithSchemaAndImportFixtures_steps_witness:
  "RecreateDatabaseWithSchemaAndImportFixtures demoEnv (demoFixturer False ''fx'') (initSys demoTables) =
     ImportFixtures demoEnv (demoFixturer False ''fx'') (initSys demoTables)
   \<and> RecreateDatabaseWithSchemaAndImportFixtures (demoEnvFailing (DbExec (DropDatabaseIfExists ''test'')))
        (demoFixturer True ''fx'') (initSys demoTables) =
       (Some (Error ''driver: bad connection''), demoFixturer True ''fx'',
        snd (RecreateDatabase (demoEnvFailing (DbExec (DropDatabaseIfExists ''test'')))
               (demoFixturer True ''fx'') (initSys demoTables)))
   \<and> trace (snd (snd (RecreateDatabaseWithSchemaAndImportFixtures
        (demoEnvFailing (DbExec (DropDatabaseIfExists ''test''))) (demoFixturer True ''fx'') (initSys demoTables)))) =
       [SqlOpen ''root@tcp(db)/'', DbExec (DropDatabaseIfExists ''test'')]
   \<and> fst (RecreateDatabaseWithSchemaAndImportFixtures
        (demoEnvFailing (TxExec (RawSql ''CREATE TABLE orders (id INT)''))) (demoFixturer True ''fx'') (initSys demoTables)) =
       Some (Error ''driver: bad connection'')
   \<and> dirListings (trace (snd (snd (RecreateDatabaseWithSchemaAndImportFixtures
        (demoEnvFailing (TxExec (RawSql ''CREATE TABLE orders (id INT)''))) (demoFixturer True ''fx'') (initSys demoTables))))) = []
   \<and> RecreateDatabaseWithSchemaAndImportFixtures demoEnv (demoFixturer True ''fx'') (initSys demoTables) =
       ImportFixtures demoEnv
         (fst (snd (LoadDbSchema demoEnv (demoFixturer True ''fx'')
            (snd (RecreateDatabase demoEnv (demoFixturer True ''fx'') (initSys demoTables))))))
         (snd (snd (LoadDbSchema demoEnv (demoFixturer True ''fx'')
            (snd (RecreateDatabase demoEnv (demoFixturer True ''fx'') (initSys demoTables))))))"
proof -
  let ?s = "initSys demoTables"
  let ?drop = "demoEnvFailing (DbExec (DropDatabaseIfExists ''test''))"
  let ?create = "demoEnvFailing (TxExec (RawSql ''CREATE TABLE orders (id INT)''))"
  have off: "\<not> recreateDatabase (demoFixturer False ''fx'')"
    by (simp add: demoFixturer_def NewFixturer_def)
  have on: "recreateDatabase (demoFixturer True ''fx'')"
    by (simp add: demoFixturer_def NewFixturer_def)
  have r1: "fst (RecreateDatabase ?drop (demoFixturer True ''fx'') ?s) = Some (Error ''driver: bad connection'')"
    by code_simp
  have t1: "trace (snd (RecreateDatabase ?drop (demoFixturer True ''fx'') ?s)) =
      [SqlOpen ''root@tcp(db)/'', DbExec (DropDatabaseIfExists ''test'')]"
    by code_simp
  have r2: "fst (RecreateDatabase ?create (demoFixturer True ''fx'') ?s) = None"
    by code_simp
  have l2: "fst (LoadDbSchema ?create (demoFixturer True ''fx'')
              (snd (RecreateDatabase ?create (demoFixturer True ''fx'') ?s))) =
            Some (Error ''driver: bad connection'')"
    by code_simp
  have r3: "fst (RecreateDatabase demoEnv (demoFixturer True ''fx'') ?s) = None"
    by code_simp
  have l3: "fst (LoadDbSchema demoEnv (demoFixturer True ''fx'')
              (snd (RecreateDatabase demoEnv (demoFixturer True ''fx'') ?s))) = None"
    by code_simp
  have d0: "dirListings (trace ?s) = []"
    by (simp add: initSys_def)
  note a = RecreateDatabaseWithSchemaAndImportFixtures_steps [where e = demoEnv and this = "demoFixturer False ''fx''" and s = ?s]
  note b = RecreateDatabaseWithSchemaAndImportFixtures_steps [where e = ?drop and this = "demoFixturer True ''fx''" and s = ?s]
  note c = RecreateDatabaseWithSchemaAndImportFixtures_steps [where e = ?create and this = "demoFixturer True ''fx''" and s = ?s]
  note d = RecreateDatabaseWithSchemaAndImportFixtures_steps [where e = demoEnv and this = "demoFixturer True ''fx''" and s = ?s]
  from a off have A: "RecreateDatabaseWithSchemaAndImportFixtures demoEnv (demoFixturer False ''fx'') ?s =
     ImportFixtures demoEnv (demoFixturer False ''fx'') ?s" by blast
  from b on r1 have B: "RecreateDatabaseWithSchemaAndImportFixtures ?drop (demoFixturer True ''fx'') ?s =
       (Some (Error ''driver: bad connection''), demoFixturer True ''fx'',
        snd (RecreateDatabase ?drop (demoFixturer True ''fx'') ?s))" by blast
  from c on r2 l2 have C: "RecreateDatabaseWithSchemaAndImportFixtures ?create (demoFixturer True ''fx'') ?s =
       (Some (Error ''driver: bad connection''),
        snd (LoadDbSchema ?create (demoFixturer True ''fx'')
              (snd (RecreateDatabase ?create (demoFixturer True ''fx'') ?s))))
     \<and> dirListings (trace (snd (snd (RecreateDatabaseWithSchemaAndImportFixtures ?create (demoFixturer True ''fx'') ?s)))) =
         dirListings (trace ?s)" by blast
  from d on r3 l3 have D: "RecreateDatabaseWithSchemaAndImportFixtures demoEnv (demoFixturer True ''fx'') ?s =
       ImportFixtures demoEnv
         (fst (snd (LoadDbSchema demoEnv (demoFixturer True ''fx'')
            (snd (RecreateDatabase demoEnv (demoFixturer True ''fx'') ?s)))))
         (snd (snd (LoadDbSchema demoEnv (demoFixturer True ''fx'')
            (snd (RecreateDatabase demoEnv (demoFixturer True ''fx'') ?s)))))" by blast
  from A B C D t1 d0 show ?thesis by simp
qed

subsection \<open>The load phase when the driver succeeds up to the commit\<close>

lemma dbExec_trace [simp]: "trace (snd (dbExec e q s)) = trace s @ [DbExec q]"
  by (simp add: prims split: option.splits)

lemma truncateTables_ok:
  assumes "\<forall>t\<in>set ts. neverFails e (DbExec (Truncate t))"
  shows "fst (truncateTables e ts s) = None"
    and "trace (snd (truncateTables e ts s)) = trace s @ map (\<lambda>t. DbExec (Truncate t)) ts"
    and "tables (snd (truncateTables e ts s)) = (\<lambda>t. if t \<in> set ts then [] else tables s t)"
  using assms
  by (induction ts arbitrary: s; simp add: prims neverFails_def fun_eq_iff)+

lemma execInserts_trace:
  "txn s \<noteq> None \<Longrightarrow>
   trace (execInserts e qs s) = trace s @ map (\<lambda>q. TxExec (InsertOf q)) qs"
  by (induction qs arbitrary: s) (auto simp: prims Let_def split: option.splits)

lemma truncations_map_Truncate [simp]:
  "truncations (map (\<lambda>t. DbExec (Truncate t)) ts) = ts"
  by (induction ts) simp_all

lemma truncations_map_TxExec [simp]:
  "truncations (map (\<lambda>q. TxExec (f q)) qs) = []"
  by (induction qs) simp_all

text \<open>The load, once the checks are off, the tables are truncated and the transaction has begun.\<close>

lemma loadParsedData_begun:
  assumes fk: "neverFails e (DbExec (SetForeignKeyChecks False))"
      and tr: "\<forall>t\<in>set (finishedTablseNames s). neverFails e (DbExec (Truncate t))"
      and bg: "neverFails e Begin"
  obtains s3 where
    "loadParsedData e s =
      (case (case txCommit e (execInserts e (rangeValues e (insertMap s)) s3) of
                (Some err, s4) \<Rightarrow> (Some err, logf (LogError err) s4)
              | (None, s4) \<Rightarrow> (None, s4)) of
         (r, s5) \<Rightarrow> (r, snd (dbExec e (SetForeignKeyChecks True) (snd (txRollback e s5)))))"
    "trace s3 = trace s @ DbExec (SetForeignKeyChecks False)
             # map (\<lambda>t. DbExec (Truncate t)) (finishedTablseNames s) @ [Begin]"
    "tables s3 = (\<lambda>t. if t \<in> set (finishedTablseNames s) then [] else tables s t)"
    "txn s3 = Some (tables s3)"
proof -
  define s1 where "s1 = snd (dbExec e (SetForeignKeyChecks False) s)"
  define s2 where "s2 = snd (truncateTables e (finishedTablseNames s1) s1)"
  define s3 where "s3 = snd (dbBegin e s2)"
  have 1: "dbExec e (SetForeignKeyChecks False) s = (None, s1)"
    using fk by (simp add: s1_def prims neverFails_def)
  have n1: "finishedTablseNames s1 = finishedTablseNames s" "insertMap s1 = insertMap s"
    "trace s1 = trace s @ [DbExec (SetForeignKeyChecks False)]" "tables s1 = tables s"
    using fk by (simp_all add: s1_def prims neverFails_def)
  have "fst (truncateTables e (finishedTablseNames s1) s1) = None"
    using tr n1 by (intro truncateTables_ok) simp
  then have 2: "truncateTables e (finishedTablseNames s1) s1 = (None, s2)"
    by (simp add: s2_def prod_eq_iff)
  have n2: "trace s2 = trace s1 @ map (\<lambda>t. DbExec (Truncate t)) (finishedTablseNames s)"
    "tables s2 = (\<lambda>t. if t \<in> set (finishedTablseNames s) then [] else tables s t)"
    "insertMap s2 = insertMap s"
    using tr n1 by (simp_all add: s2_def truncateTables_ok cong: if_cong)
  have 3: "dbBegin e s2 = (None, s3)"
    using bg by (simp add: s3_def prims neverFails_def)
  have n3: "trace s3 = trace s2 @ [Begin]" "tables s3 = tables s2" "txn s3 = Some (tables s2)"
    "insertMap s3 = insertMap s"
    using bg n2 by (simp_all add: s3_def prims neverFails_def)
  show thesis
  proof (rule that [of s3])
    show "loadParsedData e s =
      (case (case txCommit e (execInserts e (rangeValues e (insertMap s)) s3) of
                (Some err, s4) \<Rightarrow> (Some err, logf (LogError err) s4)
              | (None, s4) \<Rightarrow> (None, s4)) of
         (r, s5) \<Rightarrow> (r, snd (dbExec e (SetForeignKeyChecks True) (snd (txRollback e s5)))))"
      by (simp add: loadParsedData_def 1 2 3 n3 split_def)
  qed (simp_all add: n1 n2 n3)
qed

lemma loadParsedData_trace:
  assumes fk: "neverFails e (DbExec (SetForeignKeyChecks False))"
      and tr: "\<forall>t\<in>set (finishedTablseNames s). neverFails e (DbExec (Truncate t))"
      and bg: "neverFails e Begin"
  shows "trace (snd (loadParsedData e s)) =
           trace s @ DbExec (SetForeignKeyChecks False)
             # map (\<lambda>t. DbExec (Truncate t)) (finishedTablseNames s)
             @ Begin # map (\<lambda>q. TxExec (InsertOf q)) (rangeValues e (insertMap s))
             @ [Commit, DbExec (SetForeignKeyChecks True)]"
    and "txn (snd (loadParsedData e s)) = None"
proof -
  from loadParsedData_begun [OF fk tr bg] obtain s3 where
    u: "loadParsedData e s =
      (case (case txCommit e (execInserts e (rangeValues e (insertMap s)) s3) of
                (Some err, s4) \<Rightarrow> (Some err, logf (LogError err) s4)
              | (None, s4) \<Rightarrow> (None, s4)) of
         (r, s5) \<Rightarrow> (r, snd (dbExec e (SetForeignKeyChecks True) (snd (txRollback e s5)))))"
    and t3: "trace s3 = trace s @ DbExec (SetForeignKeyChecks False)
             # map (\<lambda>t. DbExec (Truncate t)) (finishedTablseNames s) @ [Begin]"
    and x3: "txn s3 = Some (tables s3)"
    by blast
  let ?s4 = "execInserts e (rangeValues e (insertMap s)) s3"
  have 4: "trace ?s4 = trace s3 @ map (\<lambda>q. TxExec (InsertOf q)) (rangeValues e (insertMap s))"
    by (rule execInserts_trace) (simp add: x3)
  have "txn ?s4 \<noteq> None"
    by (simp add: x3)
  then obtain w where w: "txn ?s4 = Some w" by blast
  show "trace (snd (loadParsedData e s)) =
           trace s @ DbExec (SetForeignKeyChecks False)
             # map (\<lambda>t. DbExec (Truncate t)) (finishedTablseNames s)
             @ Begin # map (\<lambda>q. TxExec (InsertOf q)) (rangeValues e (insertMap s))
             @ [Commit, DbExec (SetForeignKeyChecks True)]"
    unfolding u using w 4 t3
    by (simp add: txCommit_def txRollback_def driver_def logf_def split_def split: option.splits)
  show "txn (snd (loadParsedData e s)) = None"
    unfolding u using w
    by (simp add: prims split_def split: option.splits)
qed






lemma demoEnvFailing_neverFails [simp]: "ev \<noteq> bad \<Longrightarrow> neverFails (demoEnvFailing bad) ev"
  by (simp add: neverFails_def demoEnvFailing_def demoEnv_def)

lemma demoEnvFailing_failsWith [simp]:
  "failsWith (demoEnvFailing bad) bad (Error ''driver: bad connection'')"
  by (simp add: failsWith_def demoEnvFailing_def demoEnv_def)



subsection \<open>The tables a load truncates\<close>

lemma truncateTables_truncations:
  "\<exists>n. truncations (trace (snd (truncateTables e ts s))) = truncations (trace s) @ take n ts"
proof (induction ts arbitrary: s)
  case Nil
  then show ?case by simp
next
  case (Cons t ts)
  show ?case
  proof (cases "dbErr e (trace s) (DbExec (Truncate t))")
    case None
    let ?s1 = "snd (dbExec e (Truncate t) s)"
    from Cons.IH [of ?s1] obtain n where
      "truncations (trace (snd (truncateTables e ts ?s1))) = truncations (trace ?s1) @ take n ts"
      by blast
    with None have "truncations (trace (snd (truncateTables e (t # ts) s))) =
        truncations (trace s) @ take (Suc n) (t # ts)"
      by (simp add: prims)
    then show ?thesis by blast
  next
    case (Some err)
    then have "truncations (trace (snd (truncateTables e (t # ts) s))) =
        truncations (trace s) @ take 1 (t # ts)"
      by (simp add: prims)
    then show ?thesis by blast
  qed
qed

lemma loadParsedData_truncations_prefix:
  "\<exists>n. truncations (trace (snd (loadParsedData e s))) =
        truncations (trace s) @ take n (finishedTablseNames s)"
proof (cases "dbErr e (trace s) (DbExec (SetForeignKeyChecks False))")
  case (Some err)
  then have "truncations (trace (snd (loadParsedData e s))) =
      truncations (trace s) @ take 0 (finishedTablseNames s)"
    by (simp add: loadParsedData_def prims)
  then show ?thesis by blast
next
  case None
  let ?s1 = "s\<lparr>trace := trace s @ [DbExec (SetForeignKeyChecks False)]\<rparr>"
  have s1: "truncations (trace ?s1) = truncations (trace s)" "finishedTablseNames ?s1 = finishedTablseNames s"
    by simp_all
  from truncateTables_truncations [of e "finishedTablseNames s" ?s1] obtain n where
    n: "truncations (trace (snd (truncateTables e (finishedTablseNames s) ?s1))) =
        truncations (trace ?s1) @ take n (finishedTablseNames s)"
    by blast
  have "truncations (trace (snd (loadParsedData e s))) =
      truncations (trace (snd (truncateTables e (finishedTablseNames s) ?s1)))"
    using None
    by (simp add: loadParsedData_def prims split_def split: option.splits)
  with n s1 show ?thesis by auto
qed

lemma loadParsedData_truncations_all:
  assumes fk: "neverFails e (DbExec (SetForeignKeyChecks False))"
      and tr: "\<forall>t\<in>set (finishedTablseNames s). neverFails e (DbExec (Truncate t))"
  shows "truncations (trace (snd (loadParsedData e s))) = truncations (trace s) @ finishedTablseNames s"
proof -
  let ?s1 = "s\<lparr>trace := trace s @ [DbExec (SetForeignKeyChecks False)]\<rparr>"
  have a: "fst (truncateTables e (finishedTablseNames s) ?s1) = None"
    using tr by (rule truncateTables_ok)
  have b: "trace (snd (truncateTables e (finishedTablseNames s) ?s1)) =
      trace ?s1 @ map (\<lambda>t. DbExec (Truncate t)) (finishedTablseNames s)"
    using tr by (rule truncateTables_ok)
  show ?thesis
    using fk a b
    by (simp add: loadParsedData_def prims neverFails_def split_def split: option.splits)
qed

lemma pushInsert_names:
  "finishedTablseNames (pushInsertQueriesFromYmlToChannel e this files s) =
     map (\<lambda>f. trimSuffix (fiName f) ''.yml'') (filter (\<lambda>f. hasSuffix (fiName f) ''.yml'') (taskOrder e files))"
  by (simp add: pushInsertQueriesFromYmlToChannel_def fold_parseTask)

text \<open>
  C4, as the code has it. The parse phase replaces \<^verbatim>\<open>finishedTablseNames\<close> by the table
  names of the files it has just parsed, in the order in which their tasks have appended
  them, whatever the list held before; when every task runs once these are the table
  names of the fixture files of the list, in some order. An import of a directory that
  is not in \<^verbatim>\<open>finishedParsedDirs\<close> therefore loads with the names of that directory
  alone; an import of a directory that is in \<^verbatim>\<open>finishedParsedDirs\<close> leaves the list as
  it is, whatever files the directory holds by now. \<^verbatim>\<open>loadParsedData\<close> truncates the
  tables of this list in order, up to the first statement that fails, and all of them
  when switching the checks off and every \<^verbatim>\<open>TRUNCATE\<close> succeed.
\<close>

theorem truncation_list_is_latest_parse:
  "finishedTablseNames (pushInsertQueriesFromYmlToChannel e this files s) =
     map tableOf (parsedFiles e files)
   \<and> (goTaskOrder e \<longrightarrow>
        mset (finishedTablseNames (pushInsertQueriesFromYmlToChannel e this files s)) =
          mset (map tableOf (filter isYml files)))
   \<and> (goTaskOrder e \<and> fixturesPathYml this \<notin> finishedParsedDirs s \<longrightarrow>
        mset (finishedTablseNames (snd (importYmlFixtures e this files s))) =
          mset (map tableOf (filter isYml files)))
   \<and> (fixturesPathYml this \<in> finishedParsedDirs s \<longrightarrow>
        finishedTablseNames (snd (importYmlFixtures e this files s)) = finishedTablseNames s)
   \<and> (\<exists>n. truncations (trace (snd (loadParsedData e s))) =
            truncations (trace s) @ take n (finishedTablseNames s))
   \<and> (neverFails e (DbExec (SetForeignKeyChecks False))
        \<and> (\<forall>t\<in>set (finishedTablseNames s). neverFails e (DbExec (Truncate t))) \<longrightarrow>
        truncations (trace (snd (loadParsedData e s))) =
          truncations (trace s) @ finishedTablseNames s)"
proof -
  have n: "finishedTablseNames (pushInsertQueriesFromYmlToChannel e this files s') =
     map tableOf (parsedFiles e files)" for s'
    by (simp add: pushInsert_names parsedFiles_eq tableOf_eq)
  have m: "mset (map tableOf (parsedFiles e files)) = mset (map tableOf (filter isYml files))"
    if "goTaskOrder e"
    using arg_cong [OF parsedFiles_mset [OF that, of files], of "image_mset tableOf"] by simp
  have a: "goTaskOrder e \<and> fixturesPathYml this \<notin> finishedParsedDirs s \<longrightarrow>
        mset (finishedTablseNames (snd (importYmlFixtures e this files s))) =
          mset (map tableOf (filter isYml files))"
    using m by (auto simp: importYmlFixtures_def Let_def logf_def n)
  have b: "fixturesPathYml this \<in> finishedParsedDirs s \<longrightarrow>
        finishedTablseNames (snd (importYmlFixtures e this files s)) = finishedTablseNames s"
    by (simp add: importYmlFixtures_def Let_def logf_def)
  have c: "goTaskOrder e \<longrightarrow>
        mset (finishedTablseNames (pushInsertQueriesFromYmlToChannel e this files s)) =
          mset (map tableOf (filter isYml files))"
    using m by (auto simp: n)
  from n [of s] a b c loadParsedData_truncations_prefix loadParsedData_truncations_all
  show ?thesis by blast
qed

lemma demo_goTaskOrder [simp]: "goTaskOrder demoEnv"
  by (simp add: goTaskOrder_def demoEnv_def)

lemma demoEnvReversed_goTaskOrder [simp]: "goTaskOrder demoEnvReversed"
  by (simp add: goTaskOrder_def demoEnvReversed_def)

lemma demoEnvReversed_neverFails [simp]: "neverFails demoEnvReversed ev"
  by (simp add: neverFails_def demoEnvReversed_def demoEnv_def)

text \<open>
  The theorem on concrete states: a parse phase for the two fixture files of \<^verbatim>\<open>fx\<close>
  whose tasks complete in the reverse order, after one for another directory; an import
  of a directory that has not been imported; a repeated import of \<^verbatim>\<open>fx\<close> with a file
  added; and a load.
\<close>

theorem truncation_list_is_latest_parse_witness:
  "finishedTablseNames (pushInsertQueriesFromYmlToChannel demoEnvReversed (demoFixturer True ''fx'')
      [\<lparr>fiName = ''users.yml'', fiIsDir = False\<rparr>, \<lparr>fiName = ''broken.yml'', fiIsDir = False\<rparr>]
      ((initSys demoTables)\<lparr>finishedTablseNames := [''orders'']\<rparr>)) = [''broken'', ''users'']
   \<and> mset (finishedTablseNames (pushInsertQueriesFromYmlToChannel demoEnvReversed (demoFixturer True ''fx'')
      [\<lparr>fiName = ''users.yml'', fiIsDir = False\<rparr>, \<lparr>fiName = ''broken.yml'', fiIsDir = False\<rparr>]
      ((initSys demoTables)\<lparr>finishedTablseNames := [''orders'']\<rparr>))) = {#''users'', ''broken''#}
   \<and> mset (finishedTablseNames (snd (importYmlFixtures demoEnvReversed (demoFixturer True ''fx2'')
        [\<lparr>fiName = ''orders.yml'', fiIsDir = False\<rparr>]
        ((initSys demoTables)\<lparr>finishedTablseNames := [''users'', ''broken''],
            finishedParsedDirs := {''fx''}\<rparr>)))) = {#''orders''#}
   \<and> finishedTablseNames (snd (importYmlFixtures demoEnvReversed (demoFixturer True ''fx'')
        [\<lparr>fiName = ''users.yml'', fiIsDir = False\<rparr>, \<lparr>fiName = ''added.yml'', fiIsDir = False\<rparr>]
        ((initSys demoTables)\<lparr>finishedTablseNames := [''users'', ''broken''],
            finishedParsedDirs := {''fx''}\<rparr>))) = [''users'', ''broken'']
   \<and> truncations (trace (snd (loadParsedData demoEnvReversed
        ((initSys demoTables)\<lparr>finishedTablseNames := [''orders'']\<rparr>)))) = [''orders'']"
proof -
  let ?s = "(initSys demoTables)\<lparr>finishedTablseNames := [''users'', ''broken''],
            finishedParsedDirs := {''fx''}\<rparr>"
  let ?fx = "[\<lparr>fiName = ''users.yml'', fiIsDir = False\<rparr>, \<lparr>fiName = ''broken.yml'', fiIsDir = False\<rparr>]"
  let ?files = "[\<lparr>fiName = ''users.yml'', fiIsDir = False\<rparr>, \<lparr>fiName = ''added.yml'', fiIsDir = False\<rparr>]"
  let ?t = "(initSys demoTables)\<lparr>finishedTablseNames := [''orders'']\<rparr>"
  have in2: "fixturesPathYml (demoFixturer True ''fx2'') \<notin> finishedParsedDirs ?s"
    by (simp add: demoFixturer_def NewFixturer_def)
  have in1: "fixturesPathYml (demoFixturer True ''fx'') \<in> finishedParsedDirs ?s"
    by (simp add: demoFixturer_def NewFixturer_def)
  have ok: "neverFails demoEnvReversed (DbExec (SetForeignKeyChecks False))
        \<and> (\<forall>t\<in>set (finishedTablseNames ?t). neverFails demoEnvReversed (DbExec (Truncate t)))"
    by simp
  have go: "goTaskOrder demoEnvReversed"
    by simp
  have y: "map tableOf (parsedFiles demoEnvReversed ?fx) = [''broken'', ''users'']"
    by code_simp
  have z: "map tableOf (filter isYml ?fx) = [''users'', ''broken'']"
    "map tableOf (filter isYml [\<lparr>fiName = ''orders.yml'', fiIsDir = False\<rparr>]) = [''orders'']"
    by code_simp+
  note a = truncation_list_is_latest_parse [where e = demoEnvReversed and this = "demoFixturer True ''fx''"
      and files = ?fx and s = ?t]
  note b = truncation_list_is_latest_parse [where e = demoEnvReversed and this = "demoFixturer True ''fx2''"
      and files = "[\<lparr>fiName = ''orders.yml'', fiIsDir = False\<rparr>]" and s = ?s]
  note c = truncation_list_is_latest_parse [where e = demoEnvReversed and this = "demoFixturer True ''fx''"
      and files = ?files and s = ?s]
  from a y have A: "finishedTablseNames (pushInsertQueriesFromYmlToChannel demoEnvReversed
      (demoFixturer True ''fx'') ?fx ?t) = [''broken'', ''users'']"
    by simp
  from a go have "mset (finishedTablseNames (pushInsertQueriesFromYmlToChannel demoEnvReversed
      (demoFixturer True ''fx'') ?fx ?t)) = mset (map tableOf (filter isYml ?fx))"
    by blast
  then have A': "mset (finishedTablseNames (pushInsertQueriesFromYmlToChannel demoEnvReversed
      (demoFixturer True ''fx'') ?fx ?t)) = {#''users'', ''broken''#}"
    by (simp only: z) simp
  from b in2 go have "mset (finishedTablseNames (snd (importYmlFixtures demoEnvReversed (demoFixturer True ''fx2'')
        [\<lparr>fiName = ''orders.yml'', fiIsDir = False\<rparr>] ?s))) =
      mset (map tableOf (filter isYml [\<lparr>fiName = ''orders.yml'', fiIsDir = False\<rparr>]))"
    by blast
  then have B: "mset (finishedTablseNames (snd (importYmlFixtures demoEnvReversed (demoFixturer True ''fx2'')
        [\<lparr>fiName = ''orders.yml'', fiIsDir = False\<rparr>] ?s))) = {#''orders''#}"
    by (simp only: z) simp
  from c in1 have C: "finishedTablseNames (snd (importYmlFixtures demoEnvReversed (demoFixturer True ''fx'') ?files ?s)) =
      finishedTablseNames ?s"
    by blast
  from a ok have D: "truncations (trace (snd (loadParsedData demoEnvReversed ?t))) =
      truncations (trace ?t) @ finishedTablseNames ?t"
    by blast
  from A A' B C D show ?thesis
    by (simp add: initSys_def)
qed

subsection \<open>Foreign key checks on the way out\<close>

text \<open>
  C8, as the code has it. In \<^verbatim>\<open>loadParsedData\<close> the statement that switches the checks
  on again is deferred once the statement that switches them off has succeeded: from
  then on it is the last call of every run, whatever fails in between. When switching
  the checks off fails, the function returns that error and sends nothing else.
  In \<^verbatim>\<open>LoadDbSchema\<close>, once the handle is connected, the transaction has begun and the
  checks have been switched off, every run that ends with an error before the commit
  sends the statement that switches the checks on, and then the rollback. When switching
  the checks off fails there, the function returns that error and sends the rollback
  only.
\<close>

theorem foreign_key_checks_restored:
  "(dbErr e (trace s) (DbExec (SetForeignKeyChecks False)) = None \<longrightarrow>
      last (trace (snd (loadParsedData e s))) = DbExec (SetForeignKeyChecks True))
   \<and> (\<forall>err. dbErr e (trace s) (DbExec (SetForeignKeyChecks False)) = Some err \<longrightarrow>
        loadParsedData e s = (Some err, s\<lparr>trace := trace s @ [DbExec (SetForeignKeyChecks False)]\<rparr>))
   \<and> (fst (ensureDbConnected e this (logf (LogLine ''Load database schema'') s)) = None
        \<and> neverFails e Begin \<and> neverFails e (TxExec (SetForeignKeyChecks False))
        \<and> neverFails e Commit \<and> fst (LoadDbSchema e this s) \<noteq> None \<longrightarrow>
        last (trace (snd (snd (LoadDbSchema e this s)))) = Rollback
        \<and> last (butlast (trace (snd (snd (LoadDbSchema e this s))))) = TxExec (SetForeignKeyChecks True))
   \<and> (\<forall>err. fst (ensureDbConnected e this (logf (LogLine ''Load database schema'') s)) = None
        \<and> neverFails e Begin \<and> failsWith e (TxExec (SetForeignKeyChecks False)) err \<longrightarrow>
        fst (LoadDbSchema e this s) = Some err
        \<and> trace (snd (snd (LoadDbSchema e this s))) =
            trace (snd (snd (ensureDbConnected e this (logf (LogLine ''Load database schema'') s))))
            @ [Begin, TxExec (SetForeignKeyChecks False), Rollback])"
proof -
  have a: "dbErr e (trace s) (DbExec (SetForeignKeyChecks False)) = None \<longrightarrow>
      last (trace (snd (loadParsedData e s))) = DbExec (SetForeignKeyChecks True)"
    by (simp add: loadParsedData_def dbExec_def [of e "SetForeignKeyChecks False"] driver_def split_def)
  have b: "\<forall>err. dbErr e (trace s) (DbExec (SetForeignKeyChecks False)) = Some err \<longrightarrow>
        loadParsedData e s = (Some err, s\<lparr>trace := trace s @ [DbExec (SetForeignKeyChecks False)]\<rparr>)"
    by (simp add: loadParsedData_def dbExec_def driver_def)
  define c where "c = ensureDbConnected e this (logf (LogLine ''Load database schema'') s)"
  define this1 where "this1 = fst (snd c)"
  define s1 where "s1 = snd (snd c)"
  define s2 where "s2 = snd (dbBegin e s1)"
  define s3 where "s3 = snd (txExec e (SetForeignKeyChecks False) s2)"
  define s4 where "s4 = s3\<lparr>trace := trace s3 @ [ReadFile (schema this1)]\<rparr>"
  have E1: "fst c = None \<Longrightarrow>
      ensureDbConnected e this (logf (LogLine ''Load database schema'') s) = (None, this1, s1)"
    by (simp add: c_def s1_def this1_def prod_eq_iff)
  have E2: "neverFails e Begin \<Longrightarrow> dbBegin e s1 = (None, s2)"
    by (simp add: s2_def dbBegin_def driver_def neverFails_def)
  have n2: "neverFails e Begin \<Longrightarrow> txn s2 \<noteq> None \<and> trace s2 = trace s1 @ [Begin]"
    by (simp add: s2_def dbBegin_def driver_def neverFails_def)
  have d: "fst c = None \<and> neverFails e Begin \<and> neverFails e (TxExec (SetForeignKeyChecks False))
        \<and> neverFails e Commit \<and> fst (LoadDbSchema e this s) \<noteq> None \<longrightarrow>
        last (trace (snd (snd (LoadDbSchema e this s)))) = Rollback
        \<and> last (butlast (trace (snd (snd (LoadDbSchema e this s))))) = TxExec (SetForeignKeyChecks True)"
  proof (intro impI, elim conjE)
    assume h: "fst c = None" "neverFails e Begin" "neverFails e (TxExec (SetForeignKeyChecks False))"
      "neverFails e Commit" "fst (LoadDbSchema e this s) \<noteq> None"
    have E3: "txExec e (SetForeignKeyChecks False) s2 = (None, s3)"
      using n2 [OF h(2)] h(3) by (auto simp: s3_def txExec_def driver_def neverFails_def)
    have x3: "txn s3 \<noteq> None"
      using n2 [OF h(2)] h(3) by (auto simp: s3_def txExec_def driver_def neverFails_def)
    have u: "LoadDbSchema e this s =
       (case (case (case readFile e (schema this1) of
                      Inr file \<Rightarrow>
                        (case execQueries e (splitOn CHR '';'' file) s4 of
                           (Some err, s5) \<Rightarrow> (Some err, s5)
                         | (None, s5) \<Rightarrow> txCommit e s5)
                    | Inl err \<Rightarrow> (Some err, s4)) of
                (r, s6) \<Rightarrow> (r, snd (txExec e (SetForeignKeyChecks True) s6))) of
          (r, s7) \<Rightarrow> (r, this1, snd (txRollback e s7)))"
      unfolding s4_def by (simp add: LoadDbSchema_def E1 [OF h(1)] E2 [OF h(2)] E3 Let_def)
    have x4: "txn s4 \<noteq> None"
      using x3 by (simp add: s4_def)
    show "last (trace (snd (snd (LoadDbSchema e this s)))) = Rollback
        \<and> last (butlast (trace (snd (snd (LoadDbSchema e this s))))) = TxExec (SetForeignKeyChecks True)"
    proof (cases "readFile e (schema this1)")
      case (Inl err)
      with x4 show ?thesis
        unfolding u by (auto simp: txExec_def txRollback_def driver_def split_def butlast_append split: option.splits)
    next
      case (Inr content)
      let ?q = "execQueries e (splitOn CHR '';'' content) s4"
      have x5: "txn (snd ?q) \<noteq> None"
        using x4 by simp
      show ?thesis
      proof (cases "fst ?q")
        case None
        with Inr x5 h(4,5) show ?thesis
          unfolding u
          by (auto simp: txCommit_def txExec_def txRollback_def driver_def neverFails_def split_def
              split: option.splits)
      next
        case (Some err)
        with Inr x5 show ?thesis
          unfolding u by (auto simp: txExec_def txRollback_def driver_def split_def butlast_append split: option.splits)
      qed
    qed
  qed
  have f: "\<forall>err. fst c = None \<and> neverFails e Begin \<and> failsWith e (TxExec (SetForeignKeyChecks False)) err \<longrightarrow>
        fst (LoadDbSchema e this s) = Some err
        \<and> trace (snd (snd (LoadDbSchema e this s))) =
            trace s1 @ [Begin, TxExec (SetForeignKeyChecks False), Rollback]"
  proof (intro allI impI, elim conjE)
    fix err
    assume h: "fst c = None" "neverFails e Begin" "failsWith e (TxExec (SetForeignKeyChecks False)) err"
    obtain w where w: "txn s2 = Some w"
      using n2 [OF h(2)] by blast
    have E3: "txExec e (SetForeignKeyChecks False) s2 =
        (Some err, s2\<lparr>trace := trace s2 @ [TxExec (SetForeignKeyChecks False)]\<rparr>)"
      using w h(3) by (simp add: txExec_def driver_def failsWith_def)
    show "fst (LoadDbSchema e this s) = Some err
        \<and> trace (snd (snd (LoadDbSchema e this s))) =
            trace s1 @ [Begin, TxExec (SetForeignKeyChecks False), Rollback]"
      using w n2 [OF h(2)]
      by (simp add: LoadDbSchema_def E1 [OF h(1)] E2 [OF h(2)] E3 txRollback_def driver_def)
  qed
  from a b d f show ?thesis
    unfolding s1_def c_def by blast
qed

subsection \<open>Columns and value tuples of one file\<close>

lemma fold_AddMap:
  "fold (\<lambda>item q. AddMap q item) data q =
     q\<lparr>valueRows := valueRows q @ map (\<lambda>item. map (map_of item) (columns q)) data\<rparr>"
  by (induction data arbitrary: q) (simp_all add: AddMap_def)

lemma buildInsert_eq:
  "buildInsert e tableName data =
     \<lparr>into = tableName, columns = mapRange e (allKeysMap e data),
      valueRows = map (\<lambda>item. map (map_of item) (mapRange e (allKeysMap e data))) data\<rparr>"
  by (simp add: buildInsert_def Let_def fold_AddMap Columns_def Insert_def)

lemma goMapOrder_set: "goMapOrder e \<Longrightarrow> set (mapRange e ks) = set ks"
  by (metis goMapOrder_def set_mset_mset)

lemma goMapOrder_distinct: "goMapOrder e \<Longrightarrow> distinct (mapRange e ks) = distinct ks"
  by (metis goMapOrder_def distinct_count_atmost_1 set_mset_mset)

lemma fold_setKey:
  "distinct m \<Longrightarrow> distinct (fold (\<lambda>k m'. setKey m' k) ks m)
     \<and> set (fold (\<lambda>k m'. setKey m' k) ks m) = set m \<union> set ks"
  by (induction ks arbitrary: m) (auto simp: setKey_def)

lemma allKeysMap_fold:
  assumes "goMapOrder e" "distinct m"
  shows "distinct (fold (\<lambda>item m. fold (\<lambda>k m'. setKey m' k) (mapRange e (mapKeys item)) m) data m)
     \<and> set (fold (\<lambda>item m. fold (\<lambda>k m'. setKey m' k) (mapRange e (mapKeys item)) m) data m) =
         set m \<union> (\<Union>item\<in>set data. fst ` set item)"
  using assms(2)
proof (induction data arbitrary: m)
  case Nil
  then show ?case by simp
next
  case (Cons item data)
  let ?m1 = "fold (\<lambda>k m'. setKey m' k) (mapRange e (mapKeys item)) m"
  from fold_setKey [OF Cons.prems, of "mapRange e (mapKeys item)"]
  have d: "distinct ?m1" and s: "set ?m1 = set m \<union> fst ` set item"
    by (simp_all add: goMapOrder_set [OF assms(1)] mapKeys_def)
  from Cons.IH [OF d] s show ?case
    by auto
qed

lemma allKeysMap_props:
  assumes "goMapOrder e"
  shows "distinct (allKeysMap e data)"
    and "set (allKeysMap e data) = (\<Union>item\<in>set data. fst ` set item)"
  using allKeysMap_fold [OF assms, of "[]" data]
  by (simp_all add: allKeysMap_def)

text \<open>
  C3, as the code has it. For every order in which Go may visit the keys of a map, the
  builder of a file has as columns the field names of all records of the file, each
  once, in the order the \<^verbatim>\<open>range\<close> over \<^verbatim>\<open>allKeysMap\<close> yields (which need not be the
  order of first occurrence); it has one value tuple per record, in the order of the
  records, each as long as the column list, and a slot holds the value the record has
  for the column of that position, or the marker "no value supplied" exactly when the
  record omits the field.
\<close>

theorem buildInsert_union_aligned:
  assumes "goMapOrder e"
  shows "distinct (columns (buildInsert e tableName data))
       \<and> set (columns (buildInsert e tableName data)) = (\<Union>item\<in>set data. fst ` set item)
       \<and> length (valueRows (buildInsert e tableName data)) = length data
       \<and> (\<forall>i<length data.
            length (valueRows (buildInsert e tableName data) ! i) =
              length (columns (buildInsert e tableName data))
            \<and> (\<forall>j<length (columns (buildInsert e tableName data)).
                  valueRows (buildInsert e tableName data) ! i ! j =
                    map_of (data ! i) (columns (buildInsert e tableName data) ! j)
                  \<and> ((valueRows (buildInsert e tableName data) ! i ! j = None) =
                       (columns (buildInsert e tableName data) ! j \<notin> fst ` set (data ! i)))))"
  using allKeysMap_props [OF assms, of data]
  by (simp add: buildInsert_eq goMapOrder_set [OF assms] goMapOrder_distinct [OF assms] map_of_eq_None_iff)

text \<open>
  C3 as stated does not hold: for the two records of \<^verbatim>\<open>users.yml\<close> and a map order that
  is the reverse of the insertion order, the columns are \<^verbatim>\<open>note, id, name\<close>, while the
  order of first occurrence is \<^verbatim>\<open>id, name, note\<close>.
\<close>

theorem column_order_counterexample:
  "columns (buildInsert (demoEnv\<lparr>mapRange := rev\<rparr>) ''users'' usersRecords) = [''note'', ''id'', ''name'']
   \<and> specFirstOccurrenceColumns usersRecords = [''id'', ''name'', ''note'']
   \<and> goMapOrder (demoEnv\<lparr>mapRange := rev\<rparr>)"
proof -
  have "columns (buildInsert (demoEnv\<lparr>mapRange := rev\<rparr>) ''users'' usersRecords) = [''note'', ''id'', ''name'']"
    by code_simp
  moreover have "specFirstOccurrenceColumns usersRecords = [''id'', ''name'', ''note'']"
    by code_simp
  moreover have "goMapOrder (demoEnv\<lparr>mapRange := rev\<rparr>)"
    by (simp add: goMapOrder_def)
  ultimately show ?thesis by blast
qed

lemma demo_goMapOrder [simp]: "goMapOrder demoEnv"
  by (simp add: goMapOrder_def demoEnv_def)

text \<open>The theorem at the two records of \<^verbatim>\<open>users.yml\<close>.\<close>

theorem buildInsert_union_aligned_witness:
  "goMapOrder demoEnv
   \<and> columns (buildInsert demoEnv ''users'' usersRecords) = [''id'', ''name'', ''note'']
   \<and> valueRows (buildInsert demoEnv ''users'' usersRecords) =
       [[Some (YInt 1), Some (YStr ''a''), None], [Some (YInt 2), Some (YStr ''a''), Some (YStr ''x'')]]
   \<and> set (columns (buildInsert demoEnv ''users'' usersRecords)) = (\<Union>item\<in>set usersRecords. fst ` set item)
   \<and> length (valueRows (buildInsert demoEnv ''users'' usersRecords)) = length usersRecords
   \<and> length (valueRows (buildInsert demoEnv ''users'' usersRecords) ! 0) = 3
   \<and> valueRows (buildInsert demoEnv ''users'' usersRecords) ! 0 ! 2 = None"
proof -
  have c: "columns (buildInsert demoEnv ''users'' usersRecords) = [''id'', ''name'', ''note'']"
    by code_simp
  have v: "valueRows (buildInsert demoEnv ''users'' usersRecords) =
       [[Some (YInt 1), Some (YStr ''a''), None], [Some (YInt 2), Some (YStr ''a''), Some (YStr ''x'')]]"
    by code_simp
  from buildInsert_union_aligned [OF demo_goMapOrder, of "''users''" usersRecords] c v
  show ?thesis
    by simp
qed

subsection \<open>\<^verbatim>\<open>ImportFixtures\<close> as a whole\<close>

lemma noDbErrors_neverFails [simp]: "noDbErrors e \<Longrightarrow> neverFails e ev"
  by (simp add: noDbErrors_def neverFails_def)

lemma ensureDbConnected_this [simp]:
  "fixturesPathYml (fst (snd (ensureDbConnected e this s))) = fixturesPathYml this"
  by (simp add: ensureDbConnected_def prims Let_def split: option.splits)

lemma ensureDbConnected_ok: "noDbErrors e \<Longrightarrow> fst (ensureDbConnected e this s) = None"
  by (simp add: ensureDbConnected_def prims Let_def noDbErrors_def)

lemma fileInsert_path:
  "fixturesPathYml a = fixturesPathYml b \<Longrightarrow> fileInsert e a = fileInsert e b"
  by (simp add: fileInsert_def decodeFile_def fun_eq_iff)

lemma decodeFile_path:
  "fixturesPathYml a = fixturesPathYml b \<Longrightarrow> decodeFile e a = decodeFile e b"
  by (simp add: decodeFile_def fun_eq_iff)

lemma ymlFiles_filter [simp]:
  "filter (\<lambda>f. hasSuffix (fiName f) ''.yml'') (ymlFiles fs) = ymlFiles fs"
  by (induction fs) (auto simp: ymlFiles_def)

text \<open>The state in which the load starts.\<close>

lemma pushInsert_fields:
  "finishedTablseNames (pushInsertQueriesFromYmlToChannel e this files s) =
     map (\<lambda>f. trimSuffix (fiName f) ''.yml'') (filter (\<lambda>f. hasSuffix (fiName f) ''.yml'') (taskOrder e files))"
  "insertMap (pushInsertQueriesFromYmlToChannel e this files s) =
     fold (\<lambda>f m. AList.update (fiName f) (fileInsert e this (fiName f)) m)
       (filter (\<lambda>f. hasSuffix (fiName f) ''.yml'') (taskOrder e files)) (insertMap s)"
  "trace (pushInsertQueriesFromYmlToChannel e this files s) =
     trace s @ map (\<lambda>f. ReadFile (fixturesPathYml this @ ''/'' @ fiName f))
       (filter (\<lambda>f. hasSuffix (fiName f) ''.yml'') (taskOrder e files))"
  "logged (pushInsertQueriesFromYmlToChannel e this files s) =
     logged s @ concat (map (\<lambda>f. case snd (decodeFile e this (fiName f)) of
                                    None \<Rightarrow> []
                                  | Some err \<Rightarrow> [LogCantReadFixture (fiName f) err])
       (filter (\<lambda>f. hasSuffix (fiName f) ''.yml'') (taskOrder e files)))"
  "tables (pushInsertQueriesFromYmlToChannel e this files s) = tables s"
  "txn (pushInsertQueriesFromYmlToChannel e this files s) = txn s"
  "finishedParsedDirs (pushInsertQueriesFromYmlToChannel e this files s) = finishedParsedDirs s"
  by (simp_all add: pushInsertQueriesFromYmlToChannel_def fold_parseTask)


lemma ImportFixtures_unfold:
  assumes rd: "readDir e (fixturesPathYml this) = Inr fs"
      and cn: "fst (ensureDbConnected e this (s\<lparr>trace := trace s @ [ReadDir (fixturesPathYml this)]\<rparr>)) = None"
  shows "fst (ImportFixtures e this s) =
           (if fixturesPathYml this \<in> finishedParsedDirs s then None
            else fst (loadParsedData e (beforeLoad e this s)))"
    and "snd (snd (ImportFixtures e this s)) =
           (snd (loadParsedData e (beforeLoad e this s)))
             \<lparr>trace := trace (snd (loadParsedData e (beforeLoad e this s))) @ [Close]\<rparr>"
proof -
  define s1 where "s1 = s\<lparr>trace := trace s @ [ReadDir (fixturesPathYml this)]\<rparr>"
  define c where "c = ensureDbConnected e this s1"
  have g: "getYmlFilesList e this (fixturesPathYml this) s = (Inr (ymlFiles fs), s1)"
    by (simp add: getYmlFilesList_def rd ymlFiles_def s1_def)
  have cc: "ensureDbConnected e this s1 = (None, fst (snd c), snd (snd c))"
    using cn by (simp add: c_def s1_def prod_eq_iff)
  have p: "fixturesPathYml (fst (snd c)) = fixturesPathYml this"
    by (simp add: c_def)
  have fp: "finishedParsedDirs (snd (snd c)) = finishedParsedDirs s"
    by (simp add: c_def s1_def)
  have bl: "beforeLoad e this s =
     (if fixturesPathYml this \<in> finishedParsedDirs s then logf (LogLine ''Import YML fixtures'') (snd (snd c))
      else (pushInsertQueriesFromYmlToChannel e (fst (snd c)) (ymlFiles fs)
              (logf (LogLine ''Import YML fixtures'') (snd (snd c))))
            \<lparr>finishedParsedDirs := insert (fixturesPathYml this) (finishedParsedDirs s)\<rparr>)"
    by (simp add: beforeLoad_def Let_def rd c_def s1_def)
  show "fst (ImportFixtures e this s) =
           (if fixturesPathYml this \<in> finishedParsedDirs s then None
            else fst (loadParsedData e (beforeLoad e this s)))"
    by (simp add: ImportFixtures_def g cc importYmlFixtures_def p fp bl logf_def Let_def
        pushInsert_fields ensureDbDisconnected_def split_def)
  show "snd (snd (ImportFixtures e this s)) =
           (snd (loadParsedData e (beforeLoad e this s)))
             \<lparr>trace := trace (snd (loadParsedData e (beforeLoad e this s))) @ [Close]\<rparr>"
    by (simp add: ImportFixtures_def g cc importYmlFixtures_def p fp bl logf_def Let_def
        pushInsert_fields ensureDbDisconnected_def driver_def split_def)
qed

lemma others_map_ReadFile:
  "dirListings (map (\<lambda>f. ReadFile (g f)) xs) = []"
  "truncations (map (\<lambda>f. ReadFile (g f)) xs) = []"
  "insertsExecuted (map (\<lambda>f. ReadFile (g f)) xs) = []"
  by (induction xs; simp)+


lemma beforeLoad_fresh:
  assumes "fixturesPathYml this \<notin> finishedParsedDirs s"
      and "readDir e (fixturesPathYml this) = Inr fs"
  shows "insertMap (beforeLoad e this s) =
           fold (\<lambda>f m. AList.update (fiName f) (fileInsert e this (fiName f)) m) (parsedFiles e (ymlFiles fs)) (insertMap s)"
    and "finishedTablseNames (beforeLoad e this s) =
           map (\<lambda>f. trimSuffix (fiName f) ''.yml'') (parsedFiles e (ymlFiles fs))"
    and "tables (beforeLoad e this s) = tables s"
    and "fileReads (trace (beforeLoad e this s)) =
           fileReads (trace s) @ map (\<lambda>f. fixturesPathYml this @ ''/'' @ fiName f) (parsedFiles e (ymlFiles fs))"
    and "dirListings (trace (beforeLoad e this s)) = dirListings (trace s) @ [fixturesPathYml this]"
    and "truncations (trace (beforeLoad e this s)) = truncations (trace s)"
    and "insertsExecuted (trace (beforeLoad e this s)) = insertsExecuted (trace s)"
    and "logged (beforeLoad e this s) =
           logged s @ LogLine ''Import YML fixtures''
             # concat (map (\<lambda>f. case snd (decodeFile e this (fiName f)) of
                                    None \<Rightarrow> []
                                  | Some err \<Rightarrow> [LogCantReadFixture (fiName f) err]) (parsedFiles e (ymlFiles fs)))"
proof -
  let ?c = "ensureDbConnected e this (s\<lparr>trace := trace s @ [ReadDir (fixturesPathYml this)]\<rparr>)"
  have fi: "fileInsert e (fst (snd ?c)) = fileInsert e this"
    by (rule fileInsert_path) simp
  have df: "decodeFile e (fst (snd ?c)) = decodeFile e this"
    by (rule decodeFile_path) simp
  have tr: "trace (beforeLoad e this s) =
      trace (snd (snd ?c)) @ map (\<lambda>f. ReadFile (fixturesPathYml this @ ''/'' @ fiName f)) (parsedFiles e (ymlFiles fs))"
    using assms by (simp add: beforeLoad_def Let_def logf_def pushInsert_fields parsedFiles_eq)
  show "insertMap (beforeLoad e this s) =
           fold (\<lambda>f m. AList.update (fiName f) (fileInsert e this (fiName f)) m) (parsedFiles e (ymlFiles fs)) (insertMap s)"
    using assms by (simp add: beforeLoad_def Let_def logf_def pushInsert_fields parsedFiles_eq fi)
  show "finishedTablseNames (beforeLoad e this s) =
           map (\<lambda>f. trimSuffix (fiName f) ''.yml'') (parsedFiles e (ymlFiles fs))"
    using assms by (simp add: beforeLoad_def Let_def logf_def pushInsert_fields parsedFiles_eq)
  show "tables (beforeLoad e this s) = tables s"
    using assms by (simp add: beforeLoad_def Let_def logf_def pushInsert_fields parsedFiles_eq)
  show "fileReads (trace (beforeLoad e this s)) =
           fileReads (trace s) @ map (\<lambda>f. fixturesPathYml this @ ''/'' @ fiName f) (parsedFiles e (ymlFiles fs))"
    by (simp add: tr)
  note nf = others_map_ReadFile
  show "dirListings (trace (beforeLoad e this s)) = dirListings (trace s) @ [fixturesPathYml this]"
    by (simp add: tr nf)
  show "truncations (trace (beforeLoad e this s)) = truncations (trace s)"
    by (simp add: tr nf)
  show "insertsExecuted (trace (beforeLoad e this s)) = insertsExecuted (trace s)"
    by (simp add: tr nf)
  show "logged (beforeLoad e this s) =
           logged s @ LogLine ''Import YML fixtures''
             # concat (map (\<lambda>f. case snd (decodeFile e this (fiName f)) of
                                    None \<Rightarrow> []
                                  | Some err \<Rightarrow> [LogCantReadFixture (fiName f) err]) (parsedFiles e (ymlFiles fs)))"
    using assms by (simp add: beforeLoad_def Let_def logf_def pushInsert_fields parsedFiles_eq df)
qed

text \<open>The rows after a load on which no driver call fails.\<close>

lemma execInserts_ok:
  assumes "noDbErrors e" "txn s = Some w"
  shows "txn (execInserts e qs s) = Some (fold (\<lambda>q. applyStmt (InsertOf q)) qs w)"
  using assms(2)
proof (induction qs arbitrary: s w)
  case Nil
  then show ?case by simp
next
  case (Cons q qs)
  let ?s0 = "case toSqlErr e q of None \<Rightarrow> s | Some err \<Rightarrow> logf (LogError err) s"
  have x: "txn ?s0 = Some w" "trace ?s0 = trace s"
    using Cons.prems by (simp_all add: logf_def split: option.splits)
  have "txExec e (InsertOf q) ?s0 =
      (None, ?s0\<lparr>trace := trace ?s0 @ [TxExec (InsertOf q)], txn := Some (applyStmt (InsertOf q) w)\<rparr>)"
    using x assms(1) by (simp add: txExec_def driver_def noDbErrors_def del: applyStmt.simps)
  then have "execInserts e (q # qs) s =
      execInserts e qs (?s0\<lparr>trace := trace ?s0 @ [TxExec (InsertOf q)], txn := Some (applyStmt (InsertOf q) w)\<rparr>)"
    by (simp add: Let_def)
  also have "txn \<dots> = Some (fold (\<lambda>q. applyStmt (InsertOf q)) qs (applyStmt (InsertOf q) w))"
    by (rule Cons.IH) (simp del: applyStmt.simps)
  finally show ?case by (simp del: applyStmt.simps)
qed

lemma loadParsedData_ok:
  assumes ok: "noDbErrors e"
  shows "fst (loadParsedData e s) = None"
    and "tables (snd (loadParsedData e s)) =
           fold (\<lambda>q. applyStmt (InsertOf q)) (rangeValues e (insertMap s))
             (\<lambda>t. if t \<in> set (finishedTablseNames s) then [] else tables s t)"
proof -
  have fk: "neverFails e (DbExec (SetForeignKeyChecks False))"
    and tr: "\<forall>t\<in>set (finishedTablseNames s). neverFails e (DbExec (Truncate t))"
    and bg: "neverFails e Begin"
    using ok by simp_all
  from loadParsedData_begun [OF fk tr bg] obtain s3 where
    u: "loadParsedData e s =
      (case (case txCommit e (execInserts e (rangeValues e (insertMap s)) s3) of
                (Some err, s4) \<Rightarrow> (Some err, logf (LogError err) s4)
              | (None, s4) \<Rightarrow> (None, s4)) of
         (r, s5) \<Rightarrow> (r, snd (dbExec e (SetForeignKeyChecks True) (snd (txRollback e s5)))))"
    and b3: "tables s3 = (\<lambda>t. if t \<in> set (finishedTablseNames s) then [] else tables s t)"
    and x3: "txn s3 = Some (tables s3)"
    by blast
  let ?s4 = "execInserts e (rangeValues e (insertMap s)) s3"
  let ?w = "fold (\<lambda>q. applyStmt (InsertOf q)) (rangeValues e (insertMap s)) (tables s3)"
  have w: "txn ?s4 = Some ?w"
    using ok x3 by (rule execInserts_ok)
  have c: "txCommit e ?s4 = (None, ?s4\<lparr>trace := trace ?s4 @ [Commit], tables := ?w, txn := None\<rparr>)"
    using w ok by (simp add: txCommit_def driver_def noDbErrors_def)
  show "fst (loadParsedData e s) = None"
    unfolding u c by (simp add: split_def)
  show "tables (snd (loadParsedData e s)) =
           fold (\<lambda>q. applyStmt (InsertOf q)) (rangeValues e (insertMap s))
             (\<lambda>t. if t \<in> set (finishedTablseNames s) then [] else tables s t)"
    unfolding u c using ok
    by (simp add: prims split_def b3 noDbErrors_def)
qed




lemma ImportFixtures_this [simp]:
  "fixturesPathYml (fst (snd (ImportFixtures e this s))) = fixturesPathYml this"
  by (simp add: ImportFixtures_def getYmlFilesList_def ensureDbDisconnected_def split_def
      split: sum.splits option.splits)

lemma beforeLoad_dirs:
  "finishedParsedDirs (beforeLoad e this s) = insert (fixturesPathYml this) (finishedParsedDirs s)"
  by (auto simp: beforeLoad_def Let_def logf_def)

lemma insertsExecuted_maps [simp]:
  "insertsExecuted (map (\<lambda>t. DbExec (f t)) ts) = []"
  "insertsExecuted (map (\<lambda>q. TxExec (InsertOf q)) qs) = qs"
  by (induction ts; simp) (induction qs; simp)


lemma map_of_fold_update:
  "map_of (fold (\<lambda>f m. AList.update (key f) (val (key f)) m) fs m0) k =
     (if k \<in> key ` set fs then Some (val k) else map_of m0 k)"
  by (induction fs arbitrary: m0) (auto simp: update_conv')

lemma into_fileInsert [simp]: "into (fileInsert e this f) = trimSuffix f ''.yml''"
  by (simp add: fileInsert_def buildInsert_eq)

text \<open>What \<^verbatim>\<open>ImportFixtures\<close> leaves when the listing succeeds and no driver call fails.\<close>

lemma ImportFixtures_ok:
  assumes rd: "readDir e (fixturesPathYml this) = Inr fs" and ok: "noDbErrors e"
  shows "fst (ImportFixtures e this s) = None"
    and "insertMap (snd (snd (ImportFixtures e this s))) = insertMap (beforeLoad e this s)"
    and "finishedTablseNames (snd (snd (ImportFixtures e this s))) = finishedTablseNames (beforeLoad e this s)"
    and "finishedParsedDirs (snd (snd (ImportFixtures e this s))) =
           insert (fixturesPathYml this) (finishedParsedDirs s)"
    and "dirListings (trace (snd (snd (ImportFixtures e this s)))) = dirListings (trace (beforeLoad e this s))"
    and "fileReads (trace (snd (snd (ImportFixtures e this s)))) = fileReads (trace (beforeLoad e this s))"
    and "truncations (trace (snd (snd (ImportFixtures e this s)))) =
           truncations (trace (beforeLoad e this s)) @ finishedTablseNames (beforeLoad e this s)"
    and "insertsExecuted (trace (snd (snd (ImportFixtures e this s)))) =
           insertsExecuted (trace (beforeLoad e this s)) @ rangeValues e (insertMap (beforeLoad e this s))"
    and "tables (snd (snd (ImportFixtures e this s))) =
           fold (\<lambda>q. applyStmt (InsertOf q)) (rangeValues e (insertMap (beforeLoad e this s)))
             (\<lambda>t. if t \<in> set (finishedTablseNames (beforeLoad e this s)) then []
                  else tables (beforeLoad e this s) t)"
proof -
  let ?b = "beforeLoad e this s"
  have cn: "fst (ensureDbConnected e this (s\<lparr>trace := trace s @ [ReadDir (fixturesPathYml this)]\<rparr>)) = None"
    using ok by (rule ensureDbConnected_ok)
  note u = ImportFixtures_unfold [OF rd cn]
  have fk: "neverFails e (DbExec (SetForeignKeyChecks False))"
    and tr: "\<forall>t\<in>set (finishedTablseNames ?b). neverFails e (DbExec (Truncate t))"
    and bg: "neverFails e Begin"
    using ok by simp_all
  note t = loadParsedData_trace(1) [OF fk tr bg]
  show "fst (ImportFixtures e this s) = None"
    by (simp add: u loadParsedData_ok [OF ok])
  show "insertMap (snd (snd (ImportFixtures e this s))) = insertMap ?b"
    by (simp add: u)
  show "finishedTablseNames (snd (snd (ImportFixtures e this s))) = finishedTablseNames ?b"
    by (simp add: u)
  show "finishedParsedDirs (snd (snd (ImportFixtures e this s))) =
           insert (fixturesPathYml this) (finishedParsedDirs s)"
    by (simp add: u beforeLoad_dirs)
  show "dirListings (trace (snd (snd (ImportFixtures e this s)))) = dirListings (trace ?b)"
    by (simp add: u)
  show "fileReads (trace (snd (snd (ImportFixtures e this s)))) = fileReads (trace ?b)"
    by (simp add: u)
  show "truncations (trace (snd (snd (ImportFixtures e this s)))) =
           truncations (trace ?b) @ finishedTablseNames ?b"
    by (simp add: u t)
  show "insertsExecuted (trace (snd (snd (ImportFixtures e this s)))) =
           insertsExecuted (trace ?b) @ rangeValues e (insertMap ?b)"
    by (simp add: u t)
  show "tables (snd (snd (ImportFixtures e this s))) =
           fold (\<lambda>q. applyStmt (InsertOf q)) (rangeValues e (insertMap ?b))
             (\<lambda>t. if t \<in> set (finishedTablseNames ?b) then [] else tables ?b t)"
    by (simp add: u loadParsedData_ok [OF ok])
qed




lemma rangeValues_member:
  assumes "goMapOrder e" "map_of m k = Some q"
  shows "q \<in> set (rangeValues e m)"
proof -
  from assms(2) have "k \<in> set (map fst m)"
    by (metis map_of_eq_None_iff option.distinct(1) set_map)
  then have "k \<in> set (mapRange e (map fst m))"
    using assms(1) by (simp add: goMapOrder_set)
  with assms(2) show ?thesis
    by (force simp: rangeValues_def List.map_filter_def image_iff)
qed

text \<open>
  C10, as the code has it. Let \<^verbatim>\<open>ImportFixtures\<close> run for a directory A and then, in
  the same process, for another directory B that has not been imported before, both
  with a listing that succeeds, without an error of the driver and with every task of
  the parse phase run once. The load of the second call executes the builder of every
  fixture file of A whose name is not the name of a fixture file of B (a file of B with
  the same name has replaced the builder in \<^verbatim>\<open>insertMap\<close>), and it truncates exactly
  the tables of the fixture files of B, in the order in which the tasks of the parse
  phase of B have appended them.
\<close>

theorem stale_batches_reexecuted:
  assumes A: "readDir eA (fixturesPathYml thisA) = Inr fsA" "noDbErrors eA"
             "fixturesPathYml thisA \<notin> finishedParsedDirs s0" "goTaskOrder eA"
      and B: "readDir eB (fixturesPathYml thisB) = Inr fsB" "noDbErrors eB" "goMapOrder eB"
             "fixturesPathYml thisB \<notin> finishedParsedDirs s0"
             "fixturesPathYml thisB \<noteq> fixturesPathYml thisA" "goTaskOrder eB"
      and runA: "ImportFixtures eA thisA s0 = (rA, thisA', s1)"
      and runB: "ImportFixtures eB thisB s1 = (rB, thisB', s2)"
  shows "(\<forall>f\<in>set (ymlFiles fsA). fiName f \<notin> fiName ` set (ymlFiles fsB) \<longrightarrow>
            fileInsert eA thisA (fiName f)
              \<in> set (drop (length (insertsExecuted (trace s1))) (insertsExecuted (trace s2))))
       \<and> drop (length (truncations (trace s1))) (truncations (trace s2)) =
           map tableOf (parsedFiles eB (ymlFiles fsB))
       \<and> mset (drop (length (truncations (trace s1))) (truncations (trace s2))) =
           mset (map tableOf (ymlFiles fsB))"
proof -
  have s1: "s1 = snd (snd (ImportFixtures eA thisA s0))"
    by (simp add: runA)
  have s2: "s2 = snd (snd (ImportFixtures eB thisB s1))"
    by (simp add: runB)
  note IA = ImportFixtures_ok [OF A(1) A(2), of s0, folded s1]
  note IB = ImportFixtures_ok [OF B(1) B(2), of s1, folded s2]
  note FA = beforeLoad_fresh [OF A(3) A(1)]
  have nb: "fixturesPathYml thisB \<notin> finishedParsedDirs s1"
    using B(4) B(5) by (simp add: IA(4))
  note FB = beforeLoad_fresh [OF nb B(1)]
  note PA = parsedFiles_ymlFiles [OF A(4), of fsA]
  note PB = parsedFiles_ymlFiles [OF B(6), of fsB]
  have m1: "map_of (insertMap s1) k =
      (if k \<in> fiName ` set (ymlFiles fsA) then Some (fileInsert eA thisA k) else map_of (insertMap s0) k)" for k
    by (simp add: IA(2) FA(1) map_of_fold_update PA(2))
  have m2: "map_of (insertMap s2) k =
      (if k \<in> fiName ` set (ymlFiles fsB) then Some (fileInsert eB thisB k) else map_of (insertMap s1) k)" for k
    by (simp add: IB(2) FB(1) map_of_fold_update PB(2))
  have ex: "drop (length (insertsExecuted (trace s1))) (insertsExecuted (trace s2)) =
      rangeValues eB (insertMap s2)"
    by (simp add: IB(8) FB(7) IB(2))
  have a: "fileInsert eA thisA (fiName f)
      \<in> set (drop (length (insertsExecuted (trace s1))) (insertsExecuted (trace s2)))"
    if "f \<in> set (ymlFiles fsA)" "fiName f \<notin> fiName ` set (ymlFiles fsB)" for f
  proof -
    from that have "map_of (insertMap s2) (fiName f) = Some (fileInsert eA thisA (fiName f))"
      by (simp add: m1 m2)
    then show ?thesis
      unfolding ex by (rule rangeValues_member [OF B(3)])
  qed
  have b: "drop (length (truncations (trace s1))) (truncations (trace s2)) =
           map tableOf (parsedFiles eB (ymlFiles fsB))"
    by (simp add: IB(7) FB(6) FB(2) tableOf_eq)
  have "mset (map tableOf (parsedFiles eB (ymlFiles fsB))) = mset (map tableOf (ymlFiles fsB))"
    using arg_cong [OF PB(1), of "image_mset tableOf"] by simp
  with b have c: "mset (drop (length (truncations (trace s1))) (truncations (trace s2))) =
           mset (map tableOf (ymlFiles fsB))"
    by simp
  from a b c show ?thesis by blast
qed

lemma truncateTables_logged: "l \<in> set (logged s) \<Longrightarrow> l \<in> set (logged (snd (truncateTables e ts s)))"
  by (induction ts arbitrary: s) (auto simp: prims split_def split: option.splits)

lemma execInserts_logged: "l \<in> set (logged s) \<Longrightarrow> l \<in> set (logged (execInserts e qs s))"
  by (induction qs arbitrary: s) (auto simp: prims split_def Let_def split: option.splits)

lemma loadParsedData_logged: "l \<in> set (logged s) \<Longrightarrow> l \<in> set (logged (snd (loadParsedData e s)))"
proof -
  assume l: "l \<in> set (logged s)"
  let ?s1 = "snd (dbExec e (SetForeignKeyChecks False) s)"
  have 1: "l \<in> set (logged ?s1)"
    using l by (simp add: prims split: option.splits)
  let ?s2 = "snd (truncateTables e (finishedTablseNames ?s1) ?s1)"
  have 2: "l \<in> set (logged ?s2)"
    using 1 by (rule truncateTables_logged)
  let ?s3 = "snd (dbBegin e ?s2)"
  have 3: "l \<in> set (logged ?s3)"
    using 2 by (simp add: prims split: option.splits)
  let ?s4 = "execInserts e (rangeValues e (insertMap ?s3)) ?s3"
  have 4: "l \<in> set (logged ?s4)"
    using 3 by (rule execInserts_logged)
  have 5: "l \<in> set (logged (snd (txCommit e ?s4)))"
    using 4 by (simp add: prims split: option.splits)
  show ?thesis
    using 1 2 3 5
    by (simp add: loadParsedData_def split_def txRollback_def dbExec_def [of e "SetForeignKeyChecks True"]
        driver_def logf_def split: option.splits)
qed

text \<open>
  C5, as the code has it. Let \<^verbatim>\<open>ImportFixtures\<close> run for a directory that has not been
  imported before, with a listing that succeeds, without an error of the driver and with
  every task of the parse phase run once, and let the decoder return an error for one
  fixture file of the directory. The operation returns \<^verbatim>\<open>nil\<close> and the failure is
  logged. For every fixture file of the directory, the failing one too, the builder made
  from that file alone is stored and executed, with one value tuple for every record the
  decoder has left in \<^verbatim>\<open>data\<close>: the failing file contributes no record only when the
  decoder has left none.
\<close>

theorem decode_failure_is_skipped:
  assumes "readDir e (fixturesPathYml this) = Inr fs" "noDbErrors e" "goMapOrder e"
          "fixturesPathYml this \<notin> finishedParsedDirs s" "goTaskOrder e"
      and bad: "bad \<in> set (ymlFiles fs)" "snd (decodeFile e this (fiName bad)) = Some err"
      and run: "ImportFixtures e this s = (r, this', s')"
  shows "r = None
       \<and> LogCantReadFixture (fiName bad) err \<in> set (logged s')
       \<and> (\<forall>g\<in>set (ymlFiles fs).
            map_of (insertMap s') (fiName g) = Some (fileInsert e this (fiName g))
            \<and> fileInsert e this (fiName g)
                \<in> set (drop (length (insertsExecuted (trace s))) (insertsExecuted (trace s')))
            \<and> length (valueRows (fileInsert e this (fiName g))) =
                length (fst (decodeFile e this (fiName g))))
       \<and> (fst (decodeFile e this (fiName bad)) = [] \<longrightarrow>
            valueRows (fileInsert e this (fiName bad)) = [])"
proof -
  let ?b = "beforeLoad e this s"
  have r: "r = fst (ImportFixtures e this s)" and s': "s' = snd (snd (ImportFixtures e this s))"
    by (simp_all add: run)
  note I = ImportFixtures_ok [OF assms(1) assms(2), of s, folded s' r]
  note F = beforeLoad_fresh [OF assms(4) assms(1)]
  note P = parsedFiles_ymlFiles [OF assms(5), of fs]
  have cn: "fst (ensureDbConnected e this (s\<lparr>trace := trace s @ [ReadDir (fixturesPathYml this)]\<rparr>)) = None"
    using assms(2) by (rule ensureDbConnected_ok)
  have lg: "logged s' = logged (snd (loadParsedData e ?b))"
    by (simp add: s' ImportFixtures_unfold(2) [OF assms(1) cn])
  have "bad \<in> set (parsedFiles e (ymlFiles fs))"
    using bad(1) by (simp add: P(2))
  then have "LogCantReadFixture (fiName bad) err \<in> set (logged ?b)"
    using bad(2) by (force simp: F(8))
  then have a: "LogCantReadFixture (fiName bad) err \<in> set (logged s')"
    unfolding lg by (rule loadParsedData_logged)
  have m: "map_of (insertMap s') k =
      (if k \<in> fiName ` set (ymlFiles fs) then Some (fileInsert e this k) else map_of (insertMap s) k)" for k
    by (simp add: I(2) F(1) map_of_fold_update P(2))
  have b: "fst (decodeFile e this (fiName bad)) = [] \<longrightarrow>
            valueRows (fileInsert e this (fiName bad)) = []"
    by (simp add: fileInsert_def buildInsert_eq)
  have ex: "drop (length (insertsExecuted (trace s))) (insertsExecuted (trace s')) =
      rangeValues e (insertMap s')"
    by (simp add: I(8) F(7) I(2))
  have c: "map_of (insertMap s') (fiName g) = Some (fileInsert e this (fiName g))
            \<and> fileInsert e this (fiName g)
                \<in> set (drop (length (insertsExecuted (trace s))) (insertsExecuted (trace s')))
            \<and> length (valueRows (fileInsert e this (fiName g))) =
                length (fst (decodeFile e this (fiName g)))"
    if "g \<in> set (ymlFiles fs)" for g
  proof -
    from that have 1: "map_of (insertMap s') (fiName g) = Some (fileInsert e this (fiName g))"
      by (simp add: m)
    have 2: "fileInsert e this (fiName g) \<in> set (rangeValues e (insertMap s'))"
      using assms(3) 1 by (rule rangeValues_member)
    have 3: "length (valueRows (fileInsert e this (fiName g))) = length (fst (decodeFile e this (fiName g)))"
      by (simp add: fileInsert_def buildInsert_eq)
    from 1 2 3 show ?thesis
      by (simp add: ex)
  qed
  from I(1) a b c show ?thesis by blast
qed

lemma demo_noDbErrors [simp]: "noDbErrors demoEnv"
  by (simp add: noDbErrors_def demoEnv_def)

lemma demo_path [simp]: "fixturesPathYml (demoFixturer flag dir) = dir"
  by (simp add: demoFixturer_def NewFixturer_def)

lemma demo_readDir:
  "readDir demoEnv ''fx'' = Inr [\<lparr>fiName = ''users.yml'', fiIsDir = False\<rparr>,
                                \<lparr>fiName = ''broken.yml'', fiIsDir = False\<rparr>,
                                \<lparr>fiName = ''README'', fiIsDir = False\<rparr>]"
  "readDir demoEnv ''fx2'' = Inr [\<lparr>fiName = ''orders.yml'', fiIsDir = False\<rparr>]"
  by (simp_all add: demoEnv_def)

lemma demo_first_run:
  "ImportFixtures demoEnv (demoFixturer True ''fx'') (initSys demoTables) =
     (None, demoFixturer True ''fx'', demoFirst)"
proof -
  have "fst (ImportFixtures demoEnv (demoFixturer True ''fx'') (initSys demoTables)) = None"
    by code_simp
  moreover have "fst (snd (ImportFixtures demoEnv (demoFixturer True ''fx'') (initSys demoTables))) =
      demoFixturer True ''fx''"
    by code_simp
  ultimately show ?thesis
    by (simp add: demoFirst_def prod_eq_iff)
qed



text \<open>
  C4 as stated does not hold: after an import of \<^verbatim>\<open>fx\<close> has recorded the tables
  \<^verbatim>\<open>users\<close> and \<^verbatim>\<open>broken\<close>, an import of \<^verbatim>\<open>fx2\<close> in the same process truncates
  \<^verbatim>\<open>orders\<close> and nothing else.
\<close>

theorem cumulative_truncation_counterexample:
  "finishedTablseNames demoFirst = [''users'', ''broken'']
   \<and> drop (length (truncations (trace demoFirst)))
        (truncations (trace (snd (snd (ImportFixtures demoEnv (demoFixturer True ''fx2'') demoFirst))))) =
       [''orders'']"
  unfolding demoFirst_def by code_simp

text \<open>
  C8 as stated does not hold: when the statement that switches the checks off fails,
  \<^verbatim>\<open>loadParsedData\<close> returns without sending the statement that switches them on.
\<close>

theorem foreign_key_checks_restored_counterexample:
  "fst (loadParsedData (demoEnvFailing (DbExec (SetForeignKeyChecks False))) demoParsed) =
     Some (Error ''driver: bad connection'')
   \<and> DbExec (SetForeignKeyChecks True)
       \<notin> set (trace (snd (loadParsedData (demoEnvFailing (DbExec (SetForeignKeyChecks False))) demoParsed)))"
  unfolding demoParsed_def by code_simp

text \<open>
  C10 as stated does not hold: \<^verbatim>\<open>fx\<close> and \<^verbatim>\<open>fx3\<close> both hold a file \<^verbatim>\<open>users.yml\<close>. The
  builder of \<^verbatim>\<open>fx/users.yml\<close> is executed by the import of \<^verbatim>\<open>fx\<close> and is not executed
  by the import of \<^verbatim>\<open>fx3\<close> that follows.
\<close>

theorem stale_batches_reexecuted_counterexample:
  "fileInsert demoEnv (demoFixturer True ''fx'') ''users.yml'' \<in> set (insertsExecuted (trace demoFirst))
   \<and> fileInsert demoEnv (demoFixturer True ''fx'') ''users.yml''
       \<notin> set (drop (length (insertsExecuted (trace demoFirst)))
            (insertsExecuted (trace (snd (snd (ImportFixtures demoEnv (demoFixturer True ''fx3'') demoFirst))))))"
  unfolding demoFirst_def by code_simp

lemma demo_ymlFiles:
  "ymlFiles [\<lparr>fiName = ''users.yml'', fiIsDir = False\<rparr>, \<lparr>fiName = ''broken.yml'', fiIsDir = False\<rparr>,
             \<lparr>fiName = ''README'', fiIsDir = False\<rparr>] =
     [\<lparr>fiName = ''users.yml'', fiIsDir = False\<rparr>, \<lparr>fiName = ''broken.yml'', fiIsDir = False\<rparr>]"
  "ymlFiles [\<lparr>fiName = ''orders.yml'', fiIsDir = False\<rparr>] = [\<lparr>fiName = ''orders.yml'', fiIsDir = False\<rparr>]"
  by code_simp+

text \<open>
  The theorem on four runs: a load that succeeds, a load and a schema load whose first
  statement fails, and a schema load whose second statement of the schema file fails.
\<close>

theorem foreign_key_checks_restored_witness:
  "last (trace (snd (loadParsedData demoEnv demoParsed))) = DbExec (SetForeignKeyChecks True)
   \<and> loadParsedData (demoEnvFailing (DbExec (SetForeignKeyChecks False))) demoParsed =
       (Some (Error ''driver: bad connection''),
        demoParsed\<lparr>trace := trace demoParsed @ [DbExec (SetForeignKeyChecks False)]\<rparr>)
   \<and> last (trace (snd (snd (LoadDbSchema (demoEnvFailing (TxExec (RawSql ''CREATE TABLE orders (id INT)'')))
        (demoFixturer True ''fx'') (initSys demoTables))))) = Rollback
   \<and> last (butlast (trace (snd (snd (LoadDbSchema (demoEnvFailing (TxExec (RawSql ''CREATE TABLE orders (id INT)'')))
        (demoFixturer True ''fx'') (initSys demoTables)))))) = TxExec (SetForeignKeyChecks True)
   \<and> fst (LoadDbSchema (demoEnvFailing (TxExec (SetForeignKeyChecks False)))
        (demoFixturer True ''fx'') (initSys demoTables)) = Some (Error ''driver: bad connection'')
   \<and> trace (snd (snd (LoadDbSchema (demoEnvFailing (TxExec (SetForeignKeyChecks False)))
        (demoFixturer True ''fx'') (initSys demoTables)))) =
       [SqlOpen ''root@tcp(db)/test'', SetMaxOpenConns 20, SetMaxIdleConns 20, Ping,
        Begin, TxExec (SetForeignKeyChecks False), Rollback]"
proof -
  let ?fx = "demoFixturer True ''fx''"
  let ?s = "initSys demoTables"
  let ?off = "demoEnvFailing (DbExec (SetForeignKeyChecks False))"
  let ?stmt = "demoEnvFailing (TxExec (RawSql ''CREATE TABLE orders (id INT)''))"
  let ?txoff = "demoEnvFailing (TxExec (SetForeignKeyChecks False))"
  have a: "dbErr demoEnv (trace demoParsed) (DbExec (SetForeignKeyChecks False)) = None"
    by (simp add: demoEnv_def)
  have b: "dbErr ?off (trace demoParsed) (DbExec (SetForeignKeyChecks False)) =
      Some (Error ''driver: bad connection'')"
    by (simp add: demoEnvFailing_def)
  have c1: "fst (ensureDbConnected ?stmt ?fx (logf (LogLine ''Load database schema'') ?s)) = None"
    by code_simp
  have c2: "fst (LoadDbSchema ?stmt ?fx ?s) \<noteq> None"
    by code_simp
  have d1: "fst (ensureDbConnected ?txoff ?fx (logf (LogLine ''Load database schema'') ?s)) = None"
    by code_simp
  have d2: "trace (snd (snd (ensureDbConnected ?txoff ?fx (logf (LogLine ''Load database schema'') ?s)))) =
      [SqlOpen ''root@tcp(db)/test'', SetMaxOpenConns 20, SetMaxIdleConns 20, Ping]"
    by code_simp
  note A = foreign_key_checks_restored [where e = demoEnv and s = demoParsed]
  note B = foreign_key_checks_restored [where e = ?off and s = demoParsed]
  note C = foreign_key_checks_restored [where e = ?stmt and this = ?fx and s = ?s]
  note D = foreign_key_checks_restored [where e = ?txoff and this = ?fx and s = ?s]
  from A a have 1: "last (trace (snd (loadParsedData demoEnv demoParsed))) = DbExec (SetForeignKeyChecks True)"
    by blast
  from B b have 2: "loadParsedData ?off demoParsed =
       (Some (Error ''driver: bad connection''),
        demoParsed\<lparr>trace := trace demoParsed @ [DbExec (SetForeignKeyChecks False)]\<rparr>)"
    by blast
  have "neverFails ?stmt Begin" "neverFails ?stmt (TxExec (SetForeignKeyChecks False))" "neverFails ?stmt Commit"
    by simp_all
  with C c1 c2 have 3: "last (trace (snd (snd (LoadDbSchema ?stmt ?fx ?s)))) = Rollback
        \<and> last (butlast (trace (snd (snd (LoadDbSchema ?stmt ?fx ?s))))) = TxExec (SetForeignKeyChecks True)"
    by blast
  have "neverFails ?txoff Begin"
       "failsWith ?txoff (TxExec (SetForeignKeyChecks False)) (Error ''driver: bad connection'')"
    by simp_all
  with D d1 have 4: "fst (LoadDbSchema ?txoff ?fx ?s) = Some (Error ''driver: bad connection'')
        \<and> trace (snd (snd (LoadDbSchema ?txoff ?fx ?s))) =
            trace (snd (snd (ensureDbConnected ?txoff ?fx (logf (LogLine ''Load database schema'') ?s))))
            @ [Begin, TxExec (SetForeignKeyChecks False), Rollback]"
    by blast
  from 1 2 3 4 d2 show ?thesis
    by simp
qed

text \<open>The theorem at an import of \<^verbatim>\<open>fx\<close> followed by one of \<^verbatim>\<open>fx2\<close>.\<close>

theorem stale_batches_reexecuted_witness:
  "fileInsert demoEnv (demoFixturer True ''fx'') ''users.yml''
     \<in> set (drop (length (insertsExecuted (trace demoFirst)))
          (insertsExecuted (trace (snd (snd (ImportFixtures demoEnv (demoFixturer True ''fx2'') demoFirst))))))
   \<and> drop (length (truncations (trace demoFirst)))
        (truncations (trace (snd (snd (ImportFixtures demoEnv (demoFixturer True ''fx2'') demoFirst))))) =
       [''orders'']
   \<and> valueRows (fileInsert demoEnv (demoFixturer True ''fx'') ''users.yml'') =
       [[Some (YInt 1), Some (YStr ''a''), None], [Some (YInt 2), Some (YStr ''a''), Some (YStr ''x'')]]"
proof -
  let ?fx = "demoFixturer True ''fx''"
  let ?fx2 = "demoFixturer True ''fx2''"
  let ?r = "ImportFixtures demoEnv ?fx2 demoFirst"
  have runB: "ImportFixtures demoEnv ?fx2 demoFirst = (fst ?r, fst (snd ?r), snd (snd ?r))"
    by simp
  have rdA: "readDir demoEnv (fixturesPathYml ?fx) =
      Inr [\<lparr>fiName = ''users.yml'', fiIsDir = False\<rparr>, \<lparr>fiName = ''broken.yml'', fiIsDir = False\<rparr>,
           \<lparr>fiName = ''README'', fiIsDir = False\<rparr>]"
    by (simp add: demo_readDir)
  have rdB: "readDir demoEnv (fixturesPathYml ?fx2) = Inr [\<lparr>fiName = ''orders.yml'', fiIsDir = False\<rparr>]"
    by (simp add: demo_readDir)
  have nA: "fixturesPathYml ?fx \<notin> finishedParsedDirs (initSys demoTables)"
    and nB: "fixturesPathYml ?fx2 \<notin> finishedParsedDirs (initSys demoTables)"
    and ne: "fixturesPathYml ?fx2 \<noteq> fixturesPathYml ?fx"
    by (simp_all add: initSys_def)
  note t = stale_batches_reexecuted [OF rdA demo_noDbErrors nA demo_goTaskOrder
      rdB demo_noDbErrors demo_goMapOrder nB ne demo_goTaskOrder demo_first_run runB]
  have v: "valueRows (fileInsert demoEnv ?fx ''users.yml'') =
       [[Some (YInt 1), Some (YStr ''a''), None], [Some (YInt 2), Some (YStr ''a''), Some (YStr ''x'')]]"
    by code_simp
  have tn: "map tableOf (parsedFiles demoEnv [\<lparr>fiName = ''orders.yml'', fiIsDir = False\<rparr>]) = [''orders'']"
    by code_simp
  from t v tn show ?thesis
    by (simp add: demo_ymlFiles)
qed

text \<open>The theorem at \<^verbatim>\<open>fx\<close>, where \<^verbatim>\<open>broken.yml\<close> does not decode.\<close>

theorem decode_failure_is_skipped_witness:
  "fst (ImportFixtures demoEnv (demoFixturer True ''fx'') (initSys demoTables)) = None
   \<and> LogCantReadFixture ''broken.yml'' (Error ''yaml: did not find expected node content'')
       \<in> set (logged demoFirst)
   \<and> map_of (insertMap demoFirst) ''broken.yml'' = Some (fileInsert demoEnv (demoFixturer True ''fx'') ''broken.yml'')
   \<and> valueRows (fileInsert demoEnv (demoFixturer True ''fx'') ''broken.yml'') = []
   \<and> map_of (insertMap demoFirst) ''users.yml'' = Some (fileInsert demoEnv (demoFixturer True ''fx'') ''users.yml'')
   \<and> fileInsert demoEnv (demoFixturer True ''fx'') ''users.yml''
       \<in> set (drop (length (insertsExecuted (trace (initSys demoTables)))) (insertsExecuted (trace demoFirst)))
   \<and> length (valueRows (fileInsert demoEnv (demoFixturer True ''fx'') ''users.yml'')) = 2"
proof -
  let ?fx = "demoFixturer True ''fx''"
  have rd: "readDir demoEnv (fixturesPathYml ?fx) =
      Inr [\<lparr>fiName = ''users.yml'', fiIsDir = False\<rparr>, \<lparr>fiName = ''broken.yml'', fiIsDir = False\<rparr>,
           \<lparr>fiName = ''README'', fiIsDir = False\<rparr>]"
    by (simp add: demo_readDir)
  have n: "fixturesPathYml ?fx \<notin> finishedParsedDirs (initSys demoTables)"
    by (simp add: initSys_def)
  have bad: "\<lparr>fiName = ''broken.yml'', fiIsDir = False\<rparr>
      \<in> set (ymlFiles [\<lparr>fiName = ''users.yml'', fiIsDir = False\<rparr>, \<lparr>fiName = ''broken.yml'', fiIsDir = False\<rparr>,
           \<lparr>fiName = ''README'', fiIsDir = False\<rparr>])"
    by (simp add: demo_ymlFiles)
  have dec: "snd (decodeFile demoEnv ?fx (fiName \<lparr>fiName = ''broken.yml'', fiIsDir = False\<rparr>)) =
      Some (Error ''yaml: did not find expected node content'')"
    by code_simp
  have none: "fst (decodeFile demoEnv ?fx (fiName \<lparr>fiName = ''broken.yml'', fiIsDir = False\<rparr>)) = []"
    by code_simp
  have two: "length (fst (decodeFile demoEnv ?fx ''users.yml'')) = 2"
    by code_simp
  note t = decode_failure_is_skipped [OF rd demo_noDbErrors demo_goMapOrder n demo_goTaskOrder
      bad dec demo_first_run]
  have nil: "fst (ImportFixtures demoEnv ?fx (initSys demoTables)) = None"
    by (simp add: demo_first_run)
  from t none have "valueRows (fileInsert demoEnv ?fx ''broken.yml'') = []"
    by simp
  moreover from t two have "LogCantReadFixture ''broken.yml'' (Error ''yaml: did not find expected node content'')
       \<in> set (logged demoFirst)
     \<and> map_of (insertMap demoFirst) ''broken.yml'' = Some (fileInsert demoEnv ?fx ''broken.yml'')
     \<and> map_of (insertMap demoFirst) ''users.yml'' = Some (fileInsert demoEnv ?fx ''users.yml'')
     \<and> fileInsert demoEnv ?fx ''users.yml''
       \<in> set (drop (length (insertsExecuted (trace (initSys demoTables)))) (insertsExecuted (trace demoFirst)))
     \<and> length (valueRows (fileInsert demoEnv ?fx ''users.yml'')) = 2"
    by (simp add: demo_ymlFiles)
  ultimately show ?thesis
    using nil by blast
qed

text \<open>
  C5 as stated does not hold: with a decoder that returns its error for \<^verbatim>\<open>broken.yml\<close>
  after it has decoded one record, the import of \<^verbatim>\<open>fx\<close> returns \<^verbatim>\<open>nil\<close> and logs the
  failure, and the record of the file that failed to decode is a row of the table
  \<^verbatim>\<open>broken\<close>.
\<close>

theorem decode_failure_contributes_records_counterexample:
  "snd (decodeFile demoEnvPartial (demoFixturer True ''fx'') ''broken.yml'') =
     Some (Error ''yaml: line 2: did not find expected key'')
   \<and> fst (ImportFixtures demoEnvPartial (demoFixturer True ''fx'') (initSys demoTables)) = None
   \<and> LogCantReadFixture ''broken.yml'' (Error ''yaml: line 2: did not find expected key'')
       \<in> set (logged (snd (snd (ImportFixtures demoEnvPartial (demoFixturer True ''fx'') (initSys demoTables)))))
   \<and> tables (initSys demoTables) ''broken'' = []
   \<and> tables (snd (snd (ImportFixtures demoEnvPartial (demoFixturer True ''fx'') (initSys demoTables)))) ''broken'' =
       [[Some (YInt 99)]]"
  by code_simp

subsection \<open>The join of the goroutines of the parse phase\<close>




















end
